theory Spec2Isabelle
  imports Main "HOL-Library.AList"
begin

section \<open>Root-of-trust audit and reconcile engine of kfutil (cmd/rot.go)\<close>

text \<open>
  The development embeds the decision logic of \<^verbatim>\<open>cmd/rot.go\<close>: the store classifier
  \<^verbatim>\<open>isRootStore\<close>, the diff engine \<^verbatim>\<open>generateAuditReport\<close>, the reconciler
  \<^verbatim>\<open>reconcileRoots\<close> and the store loops and the audit-file import of the
  \<^verbatim>\<open>audit\<close> and \<^verbatim>\<open>reconcile\<close> commands. Collaborators that live outside the
  repository (the Keyfactor API client, the clock, the file system) are parameters of
  the model; a Go \<^verbatim>\<open>log.Fatalf\<close> and a run-time panic are values of the type
  \<open>failure\<close>.
\<close>

subsection \<open>Store classifier: \<^verbatim>\<open>isRootStore\<close>\<close>

text \<open>
  \<^verbatim>\<open>isRootStore\<close> is at lines 299 to 331 of \<^verbatim>\<open>rot.go\<close>.
  The API types \<^verbatim>\<open>api.CertStoreInventory\<close> and \<^verbatim>\<open>api.GetCertificateStoreResponse\<close>
  are declared in the client library. The records keep the fields that \<^verbatim>\<open>rot.go\<close>
  reads. Go's \<^verbatim>\<open>int\<close> is modelled by \<open>int\<close>: the three counters are bounded by the
  number of certificate entries held in memory, so they never wrap.
\<close>

record InventoriedCertificate =
  IssuedDN :: string
  IssuerDN :: string

record CertStoreInventory =
  Certificates :: "InventoriedCertificate list"
  Parameters :: "string \<rightharpoonup> string"
  inv_Thumbprints :: "(string \<times> bool) list"
  inv_Serials :: "(string \<times> bool) list"
  inv_Ids :: "(int \<times> bool) list"

record GetCertificateStoreResponse =
  resp_Id :: string

record counters =
  leafCount :: int
  keyCount :: int
  certCount :: int

text \<open>The body of the inner loop \<^verbatim>\<open>for _, cert := range item.Certificates\<close>.\<close>

definition certStep :: "CertStoreInventory \<Rightarrow> InventoriedCertificate \<Rightarrow> counters \<Rightarrow> counters" where
  "certStep item cert c =
     (let c1 = (if IssuedDN cert \<noteq> IssuerDN cert then c\<lparr>leafCount := leafCount c + 1\<rparr> else c)
      in (if Parameters item ''PrivateKeyEntry'' = Some ''Yes''
          then c1\<lparr>keyCount := keyCount c1 + 1\<rparr> else c1))"

text \<open>The body of the outer loop \<^verbatim>\<open>for _, item := range *invs\<close>.\<close>

definition invStep :: "CertStoreInventory \<Rightarrow> counters \<Rightarrow> counters" where
  "invStep item c =
     fold (certStep item) (Certificates item)
       (c\<lparr>certCount := certCount c + int (length (Certificates item))\<rparr>)"

definition countInventory :: "CertStoreInventory list \<Rightarrow> counters" where
  "countInventory invs = fold invStep invs \<lparr>leafCount = 0, keyCount = 0, certCount = 0\<rparr>"

definition isRootStore ::
  "GetCertificateStoreResponse \<Rightarrow> CertStoreInventory list \<Rightarrow> int \<Rightarrow> int \<Rightarrow> int \<Rightarrow> bool" where
  "isRootStore st invs minCerts maxKeys maxLeaf =
     (let c = countInventory invs in
      if certCount c < minCerts \<and> minCerts \<ge> 0 then False
      else if leafCount c > maxLeaf \<and> maxLeaf \<ge> 0 then False
      else if keyCount c > maxKeys \<and> maxKeys \<ge> 0 then False
      else True)"

text \<open>An inventory item is flagged when its parameter map says it holds a private key.\<close>

definition hasPrivateKey :: "CertStoreInventory \<Rightarrow> bool" where
  "hasPrivateKey item = (Parameters item ''PrivateKeyEntry'' = Some ''Yes'')"

subsection \<open>Library functions of Go used by \<^verbatim>\<open>rot.go\<close>\<close>

text \<open>
  \<^verbatim>\<open>strconv.Itoa\<close>, \<^verbatim>\<open>strconv.Atoi\<close>, \<^verbatim>\<open>strconv.ParseBool\<close>,
  \<^verbatim>\<open>strings.Join\<close> and \<^verbatim>\<open>strings.EqualFold\<close> belong to Go's standard library.
  They are written out here after the library's documentation. \<^verbatim>\<open>Atoi\<close> accepts an
  optional sign followed by one or more decimal digits and fails outside the range of
  the 64-bit \<^verbatim>\<open>int\<close>. \<^verbatim>\<open>EqualFold\<close> is modelled on ASCII letters; the other
  Unicode case foldings are left out.
\<close>

definition digitChars :: string where
  "digitChars = ''0123456789''"

definition digitVal :: "char \<Rightarrow> nat option" where
  "digitVal c = map_of (zip digitChars [0, 1, 2, 3, 4, 5, 6, 7, 8, 9]) c"

function natDigits :: "nat \<Rightarrow> string" where
  "natDigits n = (if n < 10 then [digitChars ! n] else natDigits (n div 10) @ [digitChars ! (n mod 10)])"
  by pat_completeness auto
termination
  by (relation "measure (\<lambda>n. n)") auto

declare natDigits.simps [simp del]

definition Itoa :: "int \<Rightarrow> string" where
  "Itoa i = (if i < 0 then CHR ''-'' # natDigits (nat (- i)) else natDigits (nat i))"

fun parseDigits :: "string \<Rightarrow> nat \<Rightarrow> nat option" where
  "parseDigits [] acc = Some acc"
| "parseDigits (c # cs) acc =
     (case digitVal c of None \<Rightarrow> None | Some d \<Rightarrow> parseDigits cs (acc * 10 + d))"

definition inInt64 :: "int \<Rightarrow> bool" where
  "inInt64 v = (- (2 ^ 63) \<le> v \<and> v < 2 ^ 63)"

definition signed :: "bool \<Rightarrow> string \<Rightarrow> int option" where
  "signed neg ds =
     (if ds = [] then None
      else (case parseDigits ds 0 of
              None \<Rightarrow> None
            | Some n \<Rightarrow> (let v = (if neg then - int n else int n)
                        in if inInt64 v then Some v else None)))"

fun Atoi :: "string \<Rightarrow> int option" where
  "Atoi [] = None"
| "Atoi (c # cs) =
     (if c = CHR ''-'' then signed True cs
      else if c = CHR ''+'' then signed False cs
      else signed False (c # cs))"

definition ParseBool :: "string \<Rightarrow> bool option" where
  "ParseBool s =
     (if s \<in> set [''1'', ''t'', ''T'', ''TRUE'', ''true'', ''True''] then Some True
      else if s \<in> set [''0'', ''f'', ''F'', ''FALSE'', ''false'', ''False''] then Some False
      else None)"

fun Join :: "string list \<Rightarrow> string \<Rightarrow> string" where
  "Join [] sep = []"
| "Join [x] sep = x"
| "Join (x # y # ys) sep = x @ sep @ Join (y # ys) sep"

definition toLower :: "char \<Rightarrow> char" where
  "toLower c =
     (case map_of (zip ''ABCDEFGHIJKLMNOPQRSTUVWXYZ'' ''abcdefghijklmnopqrstuvwxyz'') c of
        None \<Rightarrow> c | Some l \<Rightarrow> l)"

definition EqualFold :: "string \<Rightarrow> string \<Rightarrow> bool" where
  "EqualFold s t = (map toLower s = map toLower t)"

subsection \<open>Data of \<^verbatim>\<open>rot.go\<close>\<close>

text \<open>
  A Go map that the code only looks up is a partial function; a Go map that the code
  ranges over is an association list, whose order stands for the order in which the
  run-time happens to enumerate the map. Go does not fix that order; the model takes
  one order per map and run, and every property below is proved for all lists.
\<close>

record StoreCSVEntry =
  ID :: string
  Type :: string
  Machine :: string
  Path :: string
  Thumbprints :: "string \<rightharpoonup> bool"
  Serials :: "string \<rightharpoonup> bool"
  Ids :: "int \<rightharpoonup> bool"

record ROTAction =
  StoreID :: string
  StoreType :: string
  StorePath :: string
  Thumbprint :: string
  CertID :: int
  AddCert :: bool
  RemoveCert :: bool

type_synonym actions = "(string \<times> ROTAction list) list"

definition AuditHeader :: "string list" where
  "AuditHeader = [''Thumbprint'', ''CertID'', ''SubjectName'', ''Issuer'', ''StoreID'', ''StoreType'',
                  ''Machine'', ''Path'', ''AddCert'', ''RemoveCert'', ''Deployed'', ''AuditDate'']"

definition StoreHeader :: "string list" where
  "StoreHeader = [''StoreID'', ''StoreType'', ''StoreMachine'', ''StorePath'', ''ContainerId'',
                  ''ContainerName'', ''LastQueriedDate'']"

text \<open>A \<^verbatim>\<open>log.Fatalf\<close> ends the process; so does a run-time panic.\<close>

datatype failure = Fatal string | Panic string

text \<open>
  What the code prints on standard output with \<^verbatim>\<open>fmt.Printf\<close> and
  \<^verbatim>\<open>fmt.Println\<close>, one constructor per print statement, carrying the arguments of
  the format. Messages of the \<^verbatim>\<open>log\<close> package are not part of the model.
\<close>

datatype printed =
    ErrorLookingUpCertificate string string
  | ErrorWritingAuditRow string
  | BareError string
  | ErrorClosingAuditFile string
  | AuditReportWritten
  | ErrorAddingCert string int string string string
  | ErrorRemovingCert string int string string string
  | DryRunWouldHaveRemoved string string
  | StoreIsNotRootStore string
  | StoresNotFound string
  | NoReconciliationActions
  | ReconciliationCompleted

text \<open>
  The Keyfactor API client. A certificate or store lookup answers with an error text or
  with the response. \<^verbatim>\<open>GetCertStoreInventory\<close> returns a pointer and an error; the
  pointer may be nil. The answer to an add or remove request may depend on the requests
  sent before.
\<close>

record GetCertificateResponse =
  ctx_Id :: int
  ctx_IssuedDN :: string
  ctx_IssuerDN :: string

datatype request =
    AddCertificateToStore int string bool bool
  | RemoveCertificateFromStore int string string bool

record Client =
  GetCertificateContext :: "string \<Rightarrow> string + GetCertificateResponse"
  GetCertificateStoreByID :: "string \<Rightarrow> string + GetCertificateStoreResponse"
  GetCertStoreInventory :: "string \<Rightarrow> CertStoreInventory list option \<times> string option"
  AddCertificateToStores :: "request list \<Rightarrow> request \<Rightarrow> string option"
  RemoveCertificateFromStores :: "request list \<Rightarrow> request \<Rightarrow> string option"

subsection \<open>Reconciler: \<^verbatim>\<open>reconcileRoots\<close>\<close>

record reconcile_state =
  requests :: "request list"
  stdout :: "printed list"

text \<open>
  \<^verbatim>\<open>reconcileRoots\<close> is at lines 218 to 281 of \<^verbatim>\<open>rot.go\<close>.
  The body of the inner loop \<^verbatim>\<open>for _, a := range action\<close>. The arguments of the
  requests are those the code builds: \<^verbatim>\<open>Overwrite: true\<close> and an immediate schedule
  for an add, the thumbprint as alias for a remove.
\<close>

definition reconcileAction :: "Client \<Rightarrow> bool \<Rightarrow> string \<Rightarrow> ROTAction \<Rightarrow> reconcile_state \<Rightarrow> reconcile_state" where
  "reconcileAction kfClient dryRun thumbprint a s =
     (if AddCert a then
        (if \<not> dryRun then
           (let addReq = AddCertificateToStore (CertID a) (StoreID a) True True in
            case AddCertificateToStores kfClient (requests s) addReq of
              Some err \<Rightarrow>
                s\<lparr>requests := requests s @ [addReq],
                  stdout := stdout s @ [ErrorAddingCert (Thumbprint a) (CertID a) (StoreID a) (StorePath a) err]\<rparr>
            | None \<Rightarrow> s\<lparr>requests := requests s @ [addReq]\<rparr>)
         else s)
      else if RemoveCert a then
        (if \<not> dryRun then
           (let removeReq = RemoveCertificateFromStore (CertID a) (StoreID a) (Thumbprint a) True in
            case RemoveCertificateFromStores kfClient (requests s) removeReq of
              Some err \<Rightarrow>
                s\<lparr>requests := requests s @ [removeReq],
                  stdout := stdout s @ [ErrorRemovingCert (Thumbprint a) (CertID a) (StoreID a) (StorePath a) err]\<rparr>
            | None \<Rightarrow> s\<lparr>requests := requests s @ [removeReq]\<rparr>)
         else s\<lparr>stdout := stdout s @ [DryRunWouldHaveRemoved thumbprint (StoreID a)]\<rparr>)
      else s)"

text \<open>The body of the outer loop \<^verbatim>\<open>for thumbprint, action := range actions\<close>.\<close>

definition reconcileThumbprint :: "Client \<Rightarrow> bool \<Rightarrow> string \<times> ROTAction list \<Rightarrow> reconcile_state \<Rightarrow> reconcile_state" where
  "reconcileThumbprint kfClient dryRun entry s =
     fold (reconcileAction kfClient dryRun (fst entry)) (snd entry) s"

text \<open>
  \<^verbatim>\<open>reconcileRoots\<close> returns its \<^verbatim>\<open>error\<close> (\<open>None\<close> is \<^verbatim>\<open>nil\<close>) together with the
  requests it has sent and the lines it has printed.
\<close>

definition reconcileRoots :: "actions \<Rightarrow> Client \<Rightarrow> bool \<Rightarrow> reconcile_state \<Rightarrow> string option \<times> reconcile_state" where
  "reconcileRoots acts kfClient dryRun s =
     (if length acts = 0 then (None, s)
      else (None, fold (reconcileThumbprint kfClient dryRun) acts s))"

subsection \<open>Reading the reconciler's effects\<close>

text \<open>The request that the code builds for an action that carries a flag.\<close>

definition requestOf :: "ROTAction \<Rightarrow> request" where
  "requestOf a =
     (if AddCert a then AddCertificateToStore (CertID a) (StoreID a) True True
      else RemoveCertificateFromStore (CertID a) (StoreID a) (Thumbprint a) True)"

definition carriesFlag :: "ROTAction \<Rightarrow> bool" where
  "carriesFlag a = (AddCert a \<or> RemoveCert a)"

definition allActions :: "actions \<Rightarrow> ROTAction list" where
  "allActions acts = concat (map snd acts)"

definition isApplyError :: "printed \<Rightarrow> bool" where
  "isApplyError p =
     (case p of ErrorAddingCert t c s sp e \<Rightarrow> True
              | ErrorRemovingCert t c s sp e \<Rightarrow> True
              | _ \<Rightarrow> False)"

text \<open>A client whose add and remove requests all fail.\<close>

definition alwaysFails :: "Client \<Rightarrow> bool" where
  "alwaysFails kfClient =
     ((\<forall>h r. AddCertificateToStores kfClient h r \<noteq> None)
      \<and> (\<forall>h r. RemoveCertificateFromStores kfClient h r \<noteq> None))"

subsection \<open>Diff engine: \<^verbatim>\<open>generateAuditReport\<close>\<close>

text \<open>
  \<^verbatim>\<open>generateAuditReport\<close> is at lines 95 to 216 of \<^verbatim>\<open>rot.go\<close>.
  The operating system and the clock. \<^verbatim>\<open>os.Create\<close> and \<^verbatim>\<open>csvFile.Close\<close> may
  return an error; so may each \<^verbatim>\<open>csvWriter.Write\<close>. \<^verbatim>\<open>GetCurrentTime\<close> is defined
  outside the files at hand; it is a parameter. A write and a clock reading are indexed
  by the number of rows held in \<open>data\<close> at that moment, which grows by one with every
  row.
\<close>

record Sys =
  createErr :: "string option"
  writeErr :: "nat \<Rightarrow> string option"
  closeErr :: "string option"
  GetCurrentTime :: "nat \<Rightarrow> string"

record audit_state =
  data :: "string list list"
  csvFile :: "string list list"
  actions :: actions
  audit_stdout :: "printed list"

text \<open>
  \<^verbatim>\<open>csvWriter.Write(row)\<close> followed by the report of its error: the add pass prints
  \<^verbatim>\<open>Error writing audit file row\<close> with the error, the remove pass prints the error
  alone.
\<close>

definition csvWrite :: "Sys \<Rightarrow> (string \<Rightarrow> printed) \<Rightarrow> string list \<Rightarrow> audit_state \<Rightarrow> audit_state" where
  "csvWrite sys report row s =
     (case writeErr sys (length (data s)) of
        None \<Rightarrow> s\<lparr>csvFile := csvFile s @ [row]\<rparr>
      | Some wErr \<Rightarrow> s\<lparr>audit_stdout := audit_stdout s @ [report wErr]\<rparr>)"

text \<open>\<^verbatim>\<open>actions[cert]\<close>: a missing key reads as the nil slice.\<close>

definition actionsOf :: "actions \<Rightarrow> string \<Rightarrow> ROTAction list" where
  "actionsOf m cert = (case map_of m cert of None \<Rightarrow> [] | Some as \<Rightarrow> as)"

text \<open>\<^verbatim>\<open>actions[cert] = append(actions[cert], a)\<close>\<close>

definition appendAction :: "string \<Rightarrow> ROTAction \<Rightarrow> actions \<Rightarrow> actions" where
  "appendAction cert a m = AList.update cert (actionsOf m cert @ [a]) m"

text \<open>The body of \<^verbatim>\<open>for _, store := range stores\<close> in the add pass.\<close>

definition addPassStore ::
  "Sys \<Rightarrow> string \<Rightarrow> GetCertificateResponse \<Rightarrow> StoreCSVEntry \<Rightarrow> audit_state \<Rightarrow> audit_state" where
  "addPassStore sys cert certLookup store s =
     (let certID = ctx_Id certLookup; certIDStr = Itoa certID in
      if Thumbprints store cert \<noteq> None then
        (let row = [cert, certIDStr, ctx_IssuedDN certLookup, ctx_IssuerDN certLookup,
                    ID store, Type store, Machine store, Path store,
                    ''false'', ''false'', ''true'', GetCurrentTime sys (length (data s))]
         in csvWrite sys ErrorWritingAuditRow row (s\<lparr>data := data s @ [row]\<rparr>))
      else
        (let row = [cert, certIDStr, ctx_IssuedDN certLookup, ctx_IssuerDN certLookup,
                    ID store, Type store, Machine store, Path store,
                    ''true'', ''false'', ''false'', GetCurrentTime sys (length (data s))];
             s1 = csvWrite sys ErrorWritingAuditRow row (s\<lparr>data := data s @ [row]\<rparr>)
         in s1\<lparr>actions := appendAction cert
                 \<lparr>StoreID = ID store, StoreType = Type store, StorePath = Path store,
                  Thumbprint = cert, CertID = certID, AddCert = True, RemoveCert = False\<rparr>
                 (actions s1)\<rparr>))"

text \<open>The body of \<^verbatim>\<open>for _, store := range stores\<close> in the remove pass.\<close>

definition removePassStore ::
  "Sys \<Rightarrow> string \<Rightarrow> GetCertificateResponse \<Rightarrow> StoreCSVEntry \<Rightarrow> audit_state \<Rightarrow> audit_state" where
  "removePassStore sys cert certLookup store s =
     (let certID = ctx_Id certLookup; certIDStr = Itoa certID in
      if Thumbprints store cert \<noteq> None then
        (let row = [cert, certIDStr, ID store, Type store, Machine store, Path store,
                    ''false'', ''true'', ''true''];
             s1 = csvWrite sys BareError row (s\<lparr>data := data s @ [row]\<rparr>)
         in s1\<lparr>actions := appendAction cert
                 \<lparr>StoreID = ID store, StoreType = Type store, StorePath = Path store,
                  Thumbprint = cert, CertID = certID, AddCert = False, RemoveCert = True\<rparr>
                 (actions s1)\<rparr>)
      else
        (let row = [cert, certIDStr, ID store, Type store, Machine store, Path store,
                    ''false'', ''false'', ''false'']
         in csvWrite sys BareError row (s\<lparr>data := data s @ [row]\<rparr>)))"

text \<open>
  The bodies of \<^verbatim>\<open>for _, cert := range addCerts\<close> and of
  \<^verbatim>\<open>for _, cert := range removeCerts\<close>. A failed lookup is printed in the add pass
  and only logged in the remove pass; both go on with the next thumbprint.
\<close>

definition addPassCert ::
  "Sys \<Rightarrow> Client \<Rightarrow> (string \<times> StoreCSVEntry) list \<Rightarrow> string \<Rightarrow> audit_state \<Rightarrow> audit_state" where
  "addPassCert sys kfClient stores cert s =
     (case GetCertificateContext kfClient cert of
        Inl err \<Rightarrow> s\<lparr>audit_stdout := audit_stdout s @ [ErrorLookingUpCertificate cert err]\<rparr>
      | Inr certLookup \<Rightarrow> fold (addPassStore sys cert certLookup) (map snd stores) s)"

definition removePassCert ::
  "Sys \<Rightarrow> Client \<Rightarrow> (string \<times> StoreCSVEntry) list \<Rightarrow> string \<Rightarrow> audit_state \<Rightarrow> audit_state" where
  "removePassCert sys kfClient stores cert s =
     (case GetCertificateContext kfClient cert of
        Inl err \<Rightarrow> s
      | Inr certLookup \<Rightarrow> fold (removePassStore sys cert certLookup) (map snd stores) s)"

text \<open>
  \<^verbatim>\<open>generateAuditReport\<close>. The three Go maps it ranges over are association lists;
  the loops read the values. The Go function returns \<open>data\<close>, \<open>actions\<close> and a
  \<^verbatim>\<open>nil\<close> error; the model returns the final state, which holds both, the records
  written to \<^verbatim>\<open>rot_audit.csv\<close> and the lines printed.
\<close>

definition generateAuditReport ::
  "Sys \<Rightarrow> (string \<times> string) list \<Rightarrow> (string \<times> string) list \<Rightarrow> (string \<times> StoreCSVEntry) list
   \<Rightarrow> Client \<Rightarrow> failure + audit_state" where
  "generateAuditReport sys addCerts removeCerts stores kfClient =
     (case createErr sys of
        Some fErr \<Rightarrow> Inl (Fatal ''Error creating audit file'')
      | None \<Rightarrow>
         (case writeErr sys 1 of
            Some cErr \<Rightarrow> Inl (Fatal ''Error writing audit header'')
          | None \<Rightarrow>
             (let s0 = \<lparr>data = [AuditHeader], csvFile = [AuditHeader], actions = [], audit_stdout = []\<rparr>;
                  s1 = fold (addPassCert sys kfClient stores) (map snd addCerts) s0;
                  s2 = fold (removePassCert sys kfClient stores) (map snd removeCerts) s1;
                  s3 = (case closeErr sys of
                          Some ioErr \<Rightarrow> s2\<lparr>audit_stdout := audit_stdout s2 @ [ErrorClosingAuditFile ioErr]\<rparr>
                        | None \<Rightarrow> s2)
              in Inr (s3\<lparr>audit_stdout := audit_stdout s3 @ [AuditReportWritten]\<rparr>))))"

subsection \<open>Reading the audit table\<close>

text \<open>The value a row holds in the column that the header names.\<close>

definition column :: "string \<Rightarrow> string list \<Rightarrow> string option" where
  "column name row = map_of (zip AuditHeader row) name"

definition flagged :: "string list \<Rightarrow> bool" where
  "flagged row = (column ''AddCert'' row = Some ''true'' \<or> column ''RemoveCert'' row = Some ''true'')"

definition bothFlags :: "string list \<Rightarrow> bool" where
  "bothFlags row = (column ''AddCert'' row = Some ''true'' \<and> column ''RemoveCert'' row = Some ''true'')"

text \<open>The audit rows are the rows of \<open>data\<close> after the header.\<close>

definition auditRows :: "audit_state \<Rightarrow> string list list" where
  "auditRows s = tl (data s)"

definition resolves :: "Client \<Rightarrow> string \<Rightarrow> bool" where
  "resolves kfClient cert = (case GetCertificateContext kfClient cert of Inl err \<Rightarrow> False | Inr r \<Rightarrow> True)"

definition resolved :: "Client \<Rightarrow> (string \<times> string) list \<Rightarrow> string list" where
  "resolved kfClient certs = filter (resolves kfClient) (map snd certs)"

definition unresolved :: "Client \<Rightarrow> (string \<times> string) list \<Rightarrow> string list" where
  "unresolved kfClient certs = filter (\<lambda>cert. \<not> resolves kfClient cert) (map snd certs)"

text \<open>
  The pairs the diff engine considers in one pass: every thumbprint of the list that
  resolves, in the order of the list, with every store, in the order of the stores;
  a thumbprint that does not resolve has no pair. A pair holds the thumbprint, the
  answer of the lookup and the store.
\<close>

type_synonym pair = "string \<times> GetCertificateResponse \<times> StoreCSVEntry"

definition pairsOf :: "Client \<Rightarrow> (string \<times> StoreCSVEntry) list \<Rightarrow> string \<Rightarrow> pair list" where
  "pairsOf kfClient stores cert =
     (case GetCertificateContext kfClient cert of
        Inl err \<Rightarrow> []
      | Inr certLookup \<Rightarrow> map (\<lambda>store. (cert, certLookup, store)) (map snd stores))"

definition considered ::
  "Client \<Rightarrow> (string \<times> string) list \<Rightarrow> (string \<times> StoreCSVEntry) list \<Rightarrow> pair list" where
  "considered kfClient certs stores = concat (map (pairsOf kfClient stores) (map snd certs))"

text \<open>
  The row that each pass writes for a pair. \<open>k\<close> is the number of rows held in
  \<open>data\<close> when the add pass reads the clock.
\<close>

definition addPassRow :: "Sys \<Rightarrow> nat \<Rightarrow> pair \<Rightarrow> string list" where
  "addPassRow sys k p =
     (case p of (cert, cl, store) \<Rightarrow>
        [cert, Itoa (ctx_Id cl), ctx_IssuedDN cl, ctx_IssuerDN cl,
         ID store, Type store, Machine store, Path store,
         if Thumbprints store cert \<noteq> None then ''false'' else ''true'', ''false'',
         if Thumbprints store cert \<noteq> None then ''true'' else ''false'',
         GetCurrentTime sys k])"

definition removePassRow :: "pair \<Rightarrow> string list" where
  "removePassRow p =
     (case p of (cert, cl, store) \<Rightarrow>
        [cert, Itoa (ctx_Id cl), ID store, Type store, Machine store, Path store,
         ''false'', if Thumbprints store cert \<noteq> None then ''true'' else ''false'',
         if Thumbprints store cert \<noteq> None then ''true'' else ''false''])"

fun addPassRows :: "Sys \<Rightarrow> nat \<Rightarrow> pair list \<Rightarrow> string list list" where
  "addPassRows sys k [] = []"
| "addPassRows sys k (p # ps) = addPassRow sys k p # addPassRows sys (Suc k) ps"

text \<open>
  One (certificate, store) pair: the loop body appends exactly one row to \<open>data\<close>; the
  row does not carry both flags; and one action is appended to \<open>actions[cert]\<close> when
  the row carries a flag, none otherwise.
\<close>

definition pairStep :: "(audit_state \<Rightarrow> audit_state) \<Rightarrow> string \<Rightarrow> audit_state \<Rightarrow> bool" where
  "pairStep body cert s =
     (let s' = body s; row = last (data s') in
      data s' = data s @ [row] \<and> \<not> bothFlags row \<and>
      (if flagged row
       then length (actionsOf (actions s') cert) = Suc (length (actionsOf (actions s) cert))
       else actions s' = actions s))"

subsection \<open>Audit ledger, read path: \<^verbatim>\<open>reconcile --import-csv\<close>\<close>

text \<open>
  The import is at lines 535 to 611 of \<^verbatim>\<open>rot.go\<close>, inside the \<^verbatim>\<open>Run\<close> function
  of \<^verbatim>\<open>rotReconcileCmd\<close>.
  \<^verbatim>\<open>csv.NewReader(csvFile).ReadAll()\<close>: the file is given by its records. The reader
  is used as \<^verbatim>\<open>NewReader\<close> returns it, with \<^verbatim>\<open>FieldsPerRecord = 0\<close>: the first
  record fixes the number of fields and a later record with another number of fields
  makes \<^verbatim>\<open>ReadAll\<close> return an error.
\<close>

definition ReadAll :: "string list list \<Rightarrow> string + string list list" where
  "ReadAll records =
     (case records of
        [] \<Rightarrow> Inr []
      | r # rs \<Rightarrow> if list_all (\<lambda>x. length x = length r) rs then Inr records
                  else Inl ''wrong number of fields'')"

text \<open>The values of the map \<^verbatim>\<open>action := make(map[string]interface{})\<close>.\<close>

datatype field = IntField int | StringField string

text \<open>\<^verbatim>\<open>fieldMap[i]\<close>: the header name at index \<open>i\<close>, the empty string past the header.\<close>

definition fieldMap :: "nat \<Rightarrow> string" where
  "fieldMap i = (if i < length AuditHeader then AuditHeader ! i else [])"

text \<open>
  The value stored for a field: \<^verbatim>\<open>fieldInt, iErr := strconv.Atoi(field)\<close>, then the
  string when \<^verbatim>\<open>iErr != nil\<close> and the integer otherwise.
\<close>

definition toField :: "string \<Rightarrow> field" where
  "toField f = (case Atoi f of None \<Rightarrow> StringField f | Some fieldInt \<Rightarrow> IntField fieldInt)"

text \<open>The loop \<^verbatim>\<open>for i, field := range row\<close>, from index \<open>i\<close> on.\<close>

fun rowFields :: "nat \<Rightarrow> string list \<Rightarrow> (string \<rightharpoonup> field) \<Rightarrow> (string \<rightharpoonup> field)" where
  "rowFields i [] action = action"
| "rowFields i (f # rest) action = rowFields (Suc i) rest (action(fieldMap i \<mapsto> toField f))"

text \<open>
  The type assertions \<^verbatim>\<open>action[name].(string)\<close> and \<^verbatim>\<open>action[name].(int)\<close>. They
  panic on a missing key and on a value of the other type; \<open>None\<close> is the panic.
\<close>

fun assertString :: "field option \<Rightarrow> string option" where
  "assertString (Some (StringField s)) = Some s"
| "assertString _ = None"

fun assertInt :: "field option \<Rightarrow> int option" where
  "assertInt (Some (IntField n)) = Some n"
| "assertInt _ = None"

text \<open>\<^verbatim>\<open>b, _ := strconv.ParseBool(s)\<close>: the error is dropped and \<open>b\<close> is false then.\<close>

definition parseBoolOrFalse :: "string \<Rightarrow> bool" where
  "parseBoolOrFalse s = (case ParseBool s of None \<Rightarrow> False | Some b \<Rightarrow> b)"

text \<open>One data row: the action it is turned into, or \<open>None\<close> when a type assertion panics.\<close>

definition rowAction :: "string list \<Rightarrow> ROTAction option" where
  "rowAction row =
     (let action = rowFields 0 row Map.empty in
      Option.bind (assertString (action ''AddCert'')) (\<lambda>addCertStr.
      Option.bind (assertString (action ''RemoveCert'')) (\<lambda>removeCertStr.
      Option.bind (assertString (action ''StoreID'')) (\<lambda>storeID.
      Option.bind (assertString (action ''StoreType'')) (\<lambda>storeType.
      Option.bind (assertString (action ''Path'')) (\<lambda>storePath.
      Option.bind (assertString (action ''Thumbprint'')) (\<lambda>thumbprint.
      Option.bind (assertInt (action ''CertID'')) (\<lambda>certID.
        Some \<lparr>StoreID = storeID, StoreType = storeType, StorePath = storePath,
              Thumbprint = thumbprint, CertID = certID,
              AddCert = parseBoolOrFalse addCertStr,
              RemoveCert = parseBoolOrFalse removeCertStr\<rparr>))))))))"

definition isHeaderRow :: "string list \<Rightarrow> bool" where
  "isHeaderRow row = EqualFold (Join row '','') (Join AuditHeader '','')"

text \<open>The loop \<^verbatim>\<open>for _, row := range inFile\<close> with its variable \<open>validHeader\<close>.\<close>

fun loadRows :: "string list list \<Rightarrow> bool \<Rightarrow> actions \<Rightarrow> failure + actions" where
  "loadRows [] validHeader acts = Inr acts"
| "loadRows (row # rows) validHeader acts =
     (if isHeaderRow row then loadRows rows True acts
      else if \<not> validHeader then Inl (Fatal ''Stores CSV file is missing a valid header'')
      else (case rowAction row of
              None \<Rightarrow> Inl (Panic ''interface conversion'')
            | Some a \<Rightarrow> loadRows rows validHeader (appendAction (Thumbprint a) a acts)))"

definition importCSV :: "string list list \<Rightarrow> failure + actions" where
  "importCSV records =
     (case ReadAll records of
        Inl cErr \<Rightarrow> Inl (Fatal ''Error reading CSV file'')
      | Inr inFile \<Rightarrow> loadRows inFile False [])"

text \<open>
  The branch \<^verbatim>\<open>if isCSV && reportFile != ""\<close> of the \<^verbatim>\<open>reconcile\<close> command, from
  the records of the opened file on: the actions are loaded and handed to
  \<^verbatim>\<open>reconcileRoots\<close>.
\<close>

definition reconcileImport :: "Client \<Rightarrow> string list list \<Rightarrow> bool \<Rightarrow> failure + reconcile_state" where
  "reconcileImport kfClient records dryRun =
     (case importCSV records of
        Inl f \<Rightarrow> Inl f
      | Inr acts \<Rightarrow>
         if length acts = 0 then Inr \<lparr>requests = [], stdout = [NoReconciliationActions]\<rparr>
         else (case reconcileRoots acts kfClient dryRun \<lparr>requests = [], stdout = []\<rparr> of
                 (Some rErr, s) \<Rightarrow> Inl (Fatal ''Error reconciling roots'')
               | (None, s) \<Rightarrow> Inr (s\<lparr>stdout := stdout s @ [ReconciliationCompleted]\<rparr>)))"

text \<open>
  The Action schema read in the columns of the header: the columns asserted to be
  strings must be there and must not be integer literals, and \<open>CertID\<close> must be an
  integer literal.
\<close>

definition stringColumn :: "string \<Rightarrow> string list \<Rightarrow> bool" where
  "stringColumn name row = (case column name row of None \<Rightarrow> False | Some f \<Rightarrow> Atoi f = None)"

definition intColumn :: "string \<Rightarrow> string list \<Rightarrow> bool" where
  "intColumn name row = (case column name row of None \<Rightarrow> False | Some f \<Rightarrow> Atoi f \<noteq> None)"

definition mappable :: "string list \<Rightarrow> bool" where
  "mappable row =
     (stringColumn ''AddCert'' row \<and> stringColumn ''RemoveCert'' row \<and> stringColumn ''StoreID'' row
      \<and> stringColumn ''StoreType'' row \<and> stringColumn ''Path'' row \<and> stringColumn ''Thumbprint'' row
      \<and> intColumn ''CertID'' row)"

text \<open>
  The places of the two flag literals in a row as each pass writes it: fields 8 and 9
  of the twelve fields of the add pass, fields 6 and 7 of the nine fields of the remove
  pass.
\<close>

definition addPassFlags :: "string list \<Rightarrow> string \<times> string" where
  "addPassFlags row = (row ! 8, row ! 9)"

definition removePassFlags :: "string list \<Rightarrow> string \<times> string" where
  "removePassFlags row = (row ! 6, row ! 7)"

definition writtenFlags ::
  "(string list \<Rightarrow> string \<times> string) \<Rightarrow> string \<times> string \<Rightarrow> (audit_state \<Rightarrow> audit_state) \<Rightarrow> audit_state \<Rightarrow> bool" where
  "writtenFlags flagsOf change body s =
     (let s' = body s; row = last (data s') in
      (flagsOf row = change \<or> flagsOf row = (''false'', ''false''))
      \<and> (actions s' \<noteq> actions s) = (flagsOf row = change))"

text \<open>
  The state of a run whose rows were all written and which has no row of the remove
  pass: the file holds \<open>data\<close>, every audit row is read back as an action, and the
  actions map holds, per thumbprint, the actions read back that carry a flag.
\<close>

definition readsBack :: "audit_state \<Rightarrow> bool" where
  "readsBack s =
     (data s \<noteq> [] \<and> hd (data s) = AuditHeader \<and> csvFile s = data s
      \<and> list_all (\<lambda>row. length row = 12 \<and> \<not> isHeaderRow row \<and> rowAction row \<noteq> None) (tl (data s))
      \<and> (\<forall>t. actionsOf (actions s) t =
             filter carriesFlag (filter (\<lambda>a. Thumbprint a = t)
               (map (\<lambda>row. the (rowAction row)) (tl (data s))))))"

subsection \<open>The \<^verbatim>\<open>audit\<close> and \<^verbatim>\<open>reconcile\<close> commands\<close>

text \<open>
  The store loop of the \<^verbatim>\<open>audit\<close> command is at lines 391 to 442 of \<^verbatim>\<open>rot.go\<close>,
  the \<^verbatim>\<open>reconcile\<close> command without import at lines 612 to 704, and
  \<^verbatim>\<open>readCertsFile\<close> at lines 283 to 297.
  The commands read their CSV files with \<^verbatim>\<open>csv.Reader.ReadAll\<close>; the model starts
  from the records read. A record of the reader has at least one field; the model
  keeps the index panic of \<^verbatim>\<open>entry[0]\<close> for the empty record all the same.
\<close>

text \<open>
  \<^verbatim>\<open>readCertsFile\<close>: the first field of every record that is not one of the header
  names, as key and as value.
\<close>

fun readCertsFile :: "string list list \<Rightarrow> (string \<times> string) list \<Rightarrow> failure + (string \<times> string) list" where
  "readCertsFile [] certs = Inr certs"
| "readCertsFile (entry # certEntries) certs =
     (case entry of
        [] \<Rightarrow> Inl (Panic ''index out of range'')
      | e0 # fs \<Rightarrow>
          if e0 \<in> set [''CertID'', ''thumbprint'', ''id'', ''CertId'', ''Thumbprint'']
          then readCertsFile certEntries certs
          else readCertsFile certEntries (AList.update e0 e0 certs))"

record store_state =
  hdrValid :: bool
  storeMap :: "(string \<times> StoreCSVEntry) list"
  lookupFailures :: "string list"
  store_stdout :: "printed list"

text \<open>
  The three loops that copy the thumbprints, serials and IDs of one inventory item into
  the store's entry.
\<close>

definition indexItem :: "CertStoreInventory \<Rightarrow> StoreCSVEntry \<Rightarrow> StoreCSVEntry" where
  "indexItem cert e =
     e\<lparr>Thumbprints := fold (\<lambda>tv m. m(fst tv \<mapsto> snd tv)) (inv_Thumbprints cert) (Thumbprints e),
       Serials := fold (\<lambda>tv m. m(fst tv \<mapsto> snd tv)) (inv_Serials cert) (Serials e),
       Ids := fold (\<lambda>tv m. m(fst tv \<mapsto> snd tv)) (inv_Ids cert) (Ids e)\<rparr>"

text \<open>
  \<^verbatim>\<open>stores[entry[0]] = StoreCSVEntry{...}\<close> followed by the loop over the inventory.
  \<^verbatim>\<open>entry[3]\<close> panics on a record with fewer than four fields.
\<close>

definition putStore :: "string list \<Rightarrow> CertStoreInventory list \<Rightarrow> store_state \<Rightarrow> failure + store_state" where
  "putStore entry inventory s =
     (if length entry < 4 then Inl (Panic ''index out of range'')
      else Inr (s\<lparr>storeMap :=
              AList.update (entry ! 0)
                (fold indexItem inventory
                   \<lparr>ID = entry ! 0, Type = entry ! 1, Machine = entry ! 2, Path = entry ! 3,
                    Thumbprints = Map.empty, Serials = Map.empty, Ids = Map.empty\<rparr>)
                (storeMap s)\<rparr>))"

text \<open>
  The body of the store loop of the \<^verbatim>\<open>audit\<close> command. The result of
  \<^verbatim>\<open>append(lookupFailures, ...)\<close> is assigned to the blank identifier, so
  \<open>lookupFailures\<close> stays as it is. An inventory error is only logged and the pointer
  is dereferenced by \<^verbatim>\<open>isRootStore\<close>. The call passes \<open>maxLeaves\<close> before
  \<open>maxKeys\<close>, as the source does, where \<^verbatim>\<open>isRootStore\<close> declares \<open>maxKeys\<close> before
  \<open>maxLeaf\<close>.
\<close>

definition auditStoreEntry ::
  "Client \<Rightarrow> int \<Rightarrow> int \<Rightarrow> int \<Rightarrow> string list \<Rightarrow> store_state \<Rightarrow> failure + store_state" where
  "auditStoreEntry kfClient minCerts maxLeaves maxKeys entry s =
     (if EqualFold (Join entry '','') (Join StoreHeader '','') then Inr (s\<lparr>hdrValid := True\<rparr>)
      else if \<not> hdrValid s then Inl (Fatal ''Stores CSV file is missing a valid header'')
      else (case entry of
              [] \<Rightarrow> Inl (Panic ''index out of range'')
            | e0 # fs \<Rightarrow>
               (case GetCertificateStoreByID kfClient e0 of
                  Inl err \<Rightarrow> Inr s
                | Inr apiResp \<Rightarrow>
                   (case fst (GetCertStoreInventory kfClient e0) of
                      None \<Rightarrow> Inl (Panic ''nil pointer dereference'')
                    | Some inventory \<Rightarrow>
                       if \<not> isRootStore apiResp inventory minCerts maxLeaves maxKeys
                       then Inr (s\<lparr>store_stdout := store_stdout s @ [StoreIsNotRootStore e0]\<rparr>)
                       else putStore entry inventory s))))"

text \<open>
  The body of the store loop of the \<^verbatim>\<open>reconcile\<close> command, with the index \<open>i\<close>
  of the record. Here the failed store ID is appended to \<open>lookupFailures\<close>, and an
  inventory error is fatal.
\<close>

definition reconcileStoreEntry ::
  "Client \<Rightarrow> int \<Rightarrow> int \<Rightarrow> int \<Rightarrow> nat \<times> string list \<Rightarrow> store_state \<Rightarrow> failure + store_state" where
  "reconcileStoreEntry kfClient minCerts maxLeaves maxKeys ie s =
     (case snd ie of
        [] \<Rightarrow> Inl (Panic ''index out of range'')
      | e0 # fs \<Rightarrow>
         if e0 = ''StoreID'' \<or> e0 = ''StoreId'' \<or> fst ie = 0 then Inr s
         else (case GetCertificateStoreByID kfClient e0 of
                 Inl err \<Rightarrow> Inr (s\<lparr>lookupFailures := lookupFailures s @ [e0]\<rparr>)
               | Inr apiResp \<Rightarrow>
                  (case GetCertStoreInventory kfClient e0 of
                     (inventory, Some invErr) \<Rightarrow> Inl (Fatal ''Error getting cert store inventory'')
                   | (None, None) \<Rightarrow> Inl (Panic ''nil pointer dereference'')
                   | (Some inventory, None) \<Rightarrow>
                       if \<not> isRootStore apiResp inventory minCerts maxLeaves maxKeys then Inr s
                       else putStore (snd ie) inventory s)))"

text \<open>A loop whose body may end the process.\<close>

fun runEntries :: "('a \<Rightarrow> 's \<Rightarrow> failure + 's) \<Rightarrow> 'a list \<Rightarrow> 's \<Rightarrow> failure + 's" where
  "runEntries body [] s = Inr s"
| "runEntries body (x # xs) s =
     (case body x s of Inl f \<Rightarrow> Inl f | Inr s' \<Rightarrow> runEntries body xs s')"

definition noStores :: store_state where
  "noStores = \<lparr>hdrValid = False, storeMap = [], lookupFailures = [], store_stdout = []\<rparr>"

text \<open>
  The \<^verbatim>\<open>audit\<close> command: the store loop, the two certificate files (no records when
  the flag is empty) and \<^verbatim>\<open>generateAuditReport\<close>.
\<close>

definition rotAudit ::
  "Sys \<Rightarrow> Client \<Rightarrow> string list list \<Rightarrow> string list list \<Rightarrow> string list list
   \<Rightarrow> int \<Rightarrow> int \<Rightarrow> int \<Rightarrow> failure + store_state \<times> audit_state" where
  "rotAudit sys kfClient storeEntries addEntries removeEntries minCerts maxLeaves maxKeys =
     (case runEntries (auditStoreEntry kfClient minCerts maxLeaves maxKeys) storeEntries noStores of
        Inl f \<Rightarrow> Inl f
      | Inr s \<Rightarrow>
         (case readCertsFile addEntries [] of
            Inl f \<Rightarrow> Inl f
          | Inr certsToAdd \<Rightarrow>
             (case readCertsFile removeEntries [] of
                Inl f \<Rightarrow> Inl f
              | Inr certsToRemove \<Rightarrow>
                 (case generateAuditReport sys certsToAdd certsToRemove (storeMap s) kfClient of
                    Inl f \<Rightarrow> Inl f
                  | Inr a \<Rightarrow> Inr (s, a)))))"

text \<open>
  The \<^verbatim>\<open>reconcile\<close> command without \<^verbatim>\<open>--import-csv\<close>: the store loop, the two
  fatal checks after it, the certificate files, \<^verbatim>\<open>generateAuditReport\<close> and
  \<^verbatim>\<open>reconcileRoots\<close>. The last test \<^verbatim>\<open>lookupFailures != nil\<close> of the command is
  reached with the nil slice only, after the first fatal check, and prints nothing.
\<close>

definition rotReconcile ::
  "Sys \<Rightarrow> Client \<Rightarrow> string list list \<Rightarrow> string list list \<Rightarrow> string list list
   \<Rightarrow> int \<Rightarrow> int \<Rightarrow> int \<Rightarrow> bool \<Rightarrow> failure + audit_state \<times> reconcile_state" where
  "rotReconcile sys kfClient storeEntries addEntries removeEntries minCerts maxLeaves maxKeys dryRun =
     (case runEntries (reconcileStoreEntry kfClient minCerts maxLeaves maxKeys)
             (enumerate 0 storeEntries) noStores of
        Inl f \<Rightarrow> Inl f
      | Inr s \<Rightarrow>
         if length (lookupFailures s) > 0
         then Inl (Fatal (''Error the following stores were not found: '' @ Join (lookupFailures s) '',''))
         else if length (storeMap s) = 0 then Inl (Fatal ''No root stores found. Exiting.'')
         else
          (case readCertsFile addEntries [] of
             Inl f \<Rightarrow> Inl f
           | Inr certsToAdd \<Rightarrow>
              (case readCertsFile removeEntries [] of
                 Inl f \<Rightarrow> Inl f
               | Inr certsToRemove \<Rightarrow>
                  (case generateAuditReport sys certsToAdd certsToRemove (storeMap s) kfClient of
                     Inl f \<Rightarrow> Inl f
                   | Inr a \<Rightarrow>
                      if length (actions a) = 0
                      then Inr (a, \<lparr>requests = [], stdout = [NoReconciliationActions]\<rparr>)
                      else (case reconcileRoots (actions a) kfClient dryRun \<lparr>requests = [], stdout = []\<rparr> of
                              (Some rErr, r) \<Rightarrow> Inl (Fatal ''Error reconciling roots'')
                            | (None, r) \<Rightarrow> Inr (a, r\<lparr>stdout := stdout r @ [ReconciliationCompleted]\<rparr>))))))"

text \<open>
  The store IDs of the records that the reconcile store loop looks up and does not
  find: the records it does not skip as a header whose lookup answers with an error.
\<close>

definition lookedUp :: "nat \<times> string list \<Rightarrow> bool" where
  "lookedUp ie = (snd ie \<noteq> [] \<and> hd (snd ie) \<noteq> ''StoreID'' \<and> hd (snd ie) \<noteq> ''StoreId'' \<and> fst ie \<noteq> 0)"

definition storeFound :: "Client \<Rightarrow> string \<Rightarrow> bool" where
  "storeFound kfClient e0 = (case GetCertificateStoreByID kfClient e0 of Inl err \<Rightarrow> False | Inr r \<Rightarrow> True)"

definition failedStores :: "Client \<Rightarrow> (nat \<times> string list) list \<Rightarrow> string list" where
  "failedStores kfClient ies =
     map (\<lambda>ie. hd (snd ie)) (filter (\<lambda>ie. lookedUp ie \<and> \<not> storeFound kfClient (hd (snd ie))) ies)"

section \<open>Example inputs\<close>

definition selfSigned :: InventoriedCertificate where
  "selfSigned = \<lparr>IssuedDN = ''CN=Root'', IssuerDN = ''CN=Root''\<rparr>"

definition keyedItem :: "InventoriedCertificate list \<Rightarrow> CertStoreInventory" where
  "keyedItem certs =
     \<lparr>Certificates = certs, Parameters = [''PrivateKeyEntry'' \<mapsto> ''Yes''],
      inv_Thumbprints = [], inv_Serials = [], inv_Ids = []\<rparr>"

definition failingClient :: Client where
  "failingClient =
     \<lparr>GetCertificateContext = (\<lambda>t. Inl ''not found''),
      GetCertificateStoreByID = (\<lambda>s. Inl ''not found''),
      GetCertStoreInventory = (\<lambda>s. (None, Some ''not found'')),
      AddCertificateToStores = (\<lambda>h r. Some ''refused''),
      RemoveCertificateFromStores = (\<lambda>h r. Some ''refused'')\<rparr>"

definition addAAA :: ROTAction where
  "addAAA = \<lparr>StoreID = ''store1'', StoreType = ''PEM'', StorePath = ''/etc/ssl'',
             Thumbprint = ''AAA111'', CertID = 7, AddCert = True, RemoveCert = False\<rparr>"

definition removeBBB :: ROTAction where
  "removeBBB = \<lparr>StoreID = ''store1'', StoreType = ''PEM'', StorePath = ''/etc/ssl'',
                Thumbprint = ''BBB222'', CertID = 8, AddCert = False, RemoveCert = True\<rparr>"

definition noState :: reconcile_state where
  "noState = \<lparr>requests = [], stdout = []\<rparr>"

definition demoSys :: Sys where
  "demoSys = \<lparr>createErr = None, writeErr = (\<lambda>k. None), closeErr = None,
              GetCurrentTime = (\<lambda>k. ''2022-11-01T00:00:00Z'')\<rparr>"

definition demoClient :: Client where
  "demoClient =
     \<lparr>GetCertificateContext = (\<lambda>t.
        if t = ''AAA111'' then Inr \<lparr>ctx_Id = 7, ctx_IssuedDN = ''CN=Root A'', ctx_IssuerDN = ''CN=Root A''\<rparr>
        else if t = ''BBB222'' then Inr \<lparr>ctx_Id = 8, ctx_IssuedDN = ''CN=Root B'', ctx_IssuerDN = ''CN=Root B''\<rparr>
        else if t = ''424242'' then Inr \<lparr>ctx_Id = 9, ctx_IssuedDN = ''CN=Root C'', ctx_IssuerDN = ''CN=Root C''\<rparr>
        else Inl ''not found''),
      GetCertificateStoreByID = (\<lambda>s.
        if s = ''store1'' then Inr \<lparr>resp_Id = ''store1''\<rparr> else Inl ''not found''),
      GetCertStoreInventory = (\<lambda>s. (Some [], None)),
      AddCertificateToStores = (\<lambda>h r. None),
      RemoveCertificateFromStores = (\<lambda>h r. None)\<rparr>"

definition store1 :: StoreCSVEntry where
  "store1 = \<lparr>ID = ''store1'', Type = ''PEM'', Machine = ''host1'', Path = ''/etc/ssl'',
             Thumbprints = [''BBB222'' \<mapsto> True], Serials = Map.empty, Ids = Map.empty\<rparr>"

definition store2 :: StoreCSVEntry where
  "store2 = \<lparr>ID = ''store2'', Type = ''JKS'', Machine = ''host2'', Path = ''/opt/trust'',
             Thumbprints = [''AAA111'' \<mapsto> True], Serials = Map.empty, Ids = Map.empty\<rparr>"

definition demoRun :: audit_state where
  "demoRun =
     \<lparr>data = [AuditHeader,
         [''AAA111'', ''7'', ''CN=Root A'', ''CN=Root A'', ''store1'', ''PEM'', ''host1'', ''/etc/ssl'',
          ''true'', ''false'', ''false'', ''2022-11-01T00:00:00Z''],
         [''AAA111'', ''7'', ''CN=Root A'', ''CN=Root A'', ''store2'', ''JKS'', ''host2'', ''/opt/trust'',
          ''false'', ''false'', ''true'', ''2022-11-01T00:00:00Z''],
         [''BBB222'', ''8'', ''store1'', ''PEM'', ''host1'', ''/etc/ssl'', ''false'', ''true'', ''true''],
         [''BBB222'', ''8'', ''store2'', ''JKS'', ''host2'', ''/opt/trust'', ''false'', ''false'', ''false'']],
      csvFile = [AuditHeader,
         [''AAA111'', ''7'', ''CN=Root A'', ''CN=Root A'', ''store1'', ''PEM'', ''host1'', ''/etc/ssl'',
          ''true'', ''false'', ''false'', ''2022-11-01T00:00:00Z''],
         [''AAA111'', ''7'', ''CN=Root A'', ''CN=Root A'', ''store2'', ''JKS'', ''host2'', ''/opt/trust'',
          ''false'', ''false'', ''true'', ''2022-11-01T00:00:00Z''],
         [''BBB222'', ''8'', ''store1'', ''PEM'', ''host1'', ''/etc/ssl'', ''false'', ''true'', ''true''],
         [''BBB222'', ''8'', ''store2'', ''JKS'', ''host2'', ''/opt/trust'', ''false'', ''false'', ''false'']],
      actions =
        [(''AAA111'', [\<lparr>StoreID = ''store1'', StoreType = ''PEM'', StorePath = ''/etc/ssl'',
             Thumbprint = ''AAA111'', CertID = 7, AddCert = True, RemoveCert = False\<rparr>]),
         (''BBB222'', [\<lparr>StoreID = ''store1'', StoreType = ''PEM'', StorePath = ''/etc/ssl'',
             Thumbprint = ''BBB222'', CertID = 8, AddCert = False, RemoveCert = True\<rparr>])],
      audit_stdout = [ErrorLookingUpCertificate ''CCC333'' ''not found'', AuditReportWritten]\<rparr>"

definition rowYes :: "string list" where
  "rowYes = [''AAA111'', ''7'', ''CN=Root A'', ''CN=Root A'', ''store1'', ''PEM'', ''host1'', ''/etc/ssl'',
             ''yes'', ''no'', ''false'', ''2022-11-01T00:00:00Z'']"

definition rowAdd :: "string list" where
  "rowAdd = [''AAA111'', ''7'', ''CN=Root A'', ''CN=Root A'', ''store1'', ''PEM'', ''host1'', ''/etc/ssl'',
             ''true'', ''false'', ''false'', ''2022-11-01T00:00:00Z'']"

definition rowNoop :: "string list" where
  "rowNoop = [''AAA111'', ''7'', ''CN=Root A'', ''CN=Root A'', ''store2'', ''JKS'', ''host2'', ''/opt/trust'',
              ''false'', ''false'', ''true'', ''2022-11-01T00:00:00Z'']"

definition rowRemove :: "string list" where
  "rowRemove = [''BBB222'', ''8'', ''store1'', ''PEM'', ''host1'', ''/etc/ssl'', ''false'', ''true'', ''true'']"

definition rowDigits :: "string list" where
  "rowDigits = [''424242'', ''9'', ''CN=Root C'', ''CN=Root C'', ''store1'', ''PEM'', ''host1'', ''/etc/ssl'',
                ''true'', ''false'', ''false'', ''2022-11-01T00:00:00Z'']"

definition noopAAA :: ROTAction where
  "noopAAA = \<lparr>StoreID = ''store2'', StoreType = ''JKS'', StorePath = ''/opt/trust'',
              Thumbprint = ''AAA111'', CertID = 7, AddCert = False, RemoveCert = False\<rparr>"

definition addDigits :: ROTAction where
  "addDigits = \<lparr>StoreID = ''store1'', StoreType = ''PEM'', StorePath = ''/etc/ssl'',
                Thumbprint = ''424242'', CertID = 9, AddCert = True, RemoveCert = False\<rparr>"

definition demoAddRun :: audit_state where
  "demoAddRun = \<lparr>data = [AuditHeader, rowAdd, rowNoop], csvFile = [AuditHeader, rowAdd, rowNoop],
                 actions = [(''AAA111'', [addAAA])], audit_stdout = [AuditReportWritten]\<rparr>"

definition store9Entry :: "string list" where
  "store9Entry = [''store9'', ''PEM'', ''host9'', ''/srv/trust'', ''0'', '''', ''2022-11-01T00:00:00Z'']"

definition store1Entry :: "string list" where
  "store1Entry = [''store1'', ''PEM'', ''host1'', ''/etc/ssl'', ''0'', '''', ''2022-11-01T00:00:00Z'']"

definition demoStoreEntries :: "string list list" where
  "demoStoreEntries = [StoreHeader, store9Entry, store1Entry]"

section \<open>Properties\<close>

subsection \<open>Properties of the store classifier\<close>

lemma certStep_keyCount:
  "keyCount (certStep item cert c) = keyCount c + (if hasPrivateKey item then 1 else 0)"
  by (simp add: certStep_def hasPrivateKey_def Let_def)

lemma fold_certStep_keyCount:
  "keyCount (fold (certStep item) certs c) =
     keyCount c + (if hasPrivateKey item then int (length certs) else 0)"
  by (induction certs arbitrary: c) (simp_all add: certStep_keyCount)

lemma invStep_keyCount:
  "keyCount (invStep item c) =
     keyCount c + (if hasPrivateKey item then int (length (Certificates item)) else 0)"
  by (simp add: invStep_def fold_certStep_keyCount)

lemma fold_invStep_keyCount:
  "keyCount (fold invStep invs c) =
     keyCount c + (\<Sum>item\<leftarrow>invs. if hasPrivateKey item then int (length (Certificates item)) else 0)"
  by (induction invs arbitrary: c) (simp_all add: invStep_keyCount)

text \<open>
  What the code computes: every flagged item adds the number of its certificate
  entries to \<open>keyCount\<close>, because the test on the item sits inside the loop over the
  item's certificates.
\<close>

lemma keyCount_countInventory:
  "keyCount (countInventory invs) =
     (\<Sum>item\<leftarrow>invs. if hasPrivateKey item then int (length (Certificates item)) else 0)"
  by (simp add: countInventory_def fold_invStep_keyCount)

text \<open>
  C4. The claim reads: each inventory item flagged as holding a private key adds
  exactly 1 to \<open>keyCount\<close>, however many certificate entries it holds. On the code one
  flagged item with two certificate entries gives \<open>keyCount = 2\<close>, and with
  \<open>maxKeys = 1\<close> the store is rejected although it holds a single flagged item; a
  flagged item without certificate entries gives \<open>keyCount = 0\<close>.
\<close>

theorem C4_keyCount_counts_certificates:
  "keyCount (countInventory [keyedItem [selfSigned, selfSigned]]) = 2
   \<and> isRootStore \<lparr>resp_Id = ''s1''\<rparr> [keyedItem [selfSigned, selfSigned]] (-1) 1 (-1) = False
   \<and> keyCount (countInventory [keyedItem []]) = 0"
  by (simp add: isRootStore_def countInventory_def invStep_def certStep_def
      keyedItem_def selfSigned_def Let_def)

text \<open>
  C5. The classifier is a function of its arguments alone, and replacing any single
  threshold by \<open>-1\<close> never turns an accepted store into a rejected one.
\<close>

theorem C5_sentinel_disables_threshold:
  assumes "isRootStore st invs minCerts maxKeys maxLeaf"
  shows "isRootStore st invs (-1) maxKeys maxLeaf
       \<and> isRootStore st invs minCerts (-1) maxLeaf
       \<and> isRootStore st invs minCerts maxKeys (-1)"
  using assms by (auto simp add: isRootStore_def Let_def split: if_splits)

theorem C5_sentinel_witness:
  "isRootStore \<lparr>resp_Id = ''s1''\<rparr> [keyedItem [selfSigned]] 1 1 0
   \<and> isRootStore \<lparr>resp_Id = ''s1''\<rparr> [keyedItem [selfSigned]] (-1) 1 0
   \<and> isRootStore \<lparr>resp_Id = ''s1''\<rparr> [keyedItem [selfSigned]] 1 (-1) 0
   \<and> isRootStore \<lparr>resp_Id = ''s1''\<rparr> [keyedItem [selfSigned]] 1 1 (-1)"
proof -
  have a: "isRootStore \<lparr>resp_Id = ''s1''\<rparr> [keyedItem [selfSigned]] 1 1 0"
    by (simp add: isRootStore_def countInventory_def invStep_def certStep_def
        keyedItem_def selfSigned_def Let_def)
  from C5_sentinel_disables_threshold [OF a] a show ?thesis by simp
qed

subsection \<open>Properties of the reconciler\<close>

lemma reconcileAction_dry_requests:
  "requests (reconcileAction kfClient True thumbprint a s) = requests s"
  by (simp add: reconcileAction_def)

lemma fold_reconcileAction_dry_requests:
  "requests (fold (reconcileAction kfClient True thumbprint) as s) = requests s"
  by (induction as arbitrary: s) (simp_all add: reconcileAction_dry_requests)

lemma fold_reconcileThumbprint_dry_requests:
  "requests (fold (reconcileThumbprint kfClient True) acts s) = requests s"
  by (induction acts arbitrary: s)
     (simp_all add: reconcileThumbprint_def fold_reconcileAction_dry_requests)

text \<open>
  C3. Dry-run guarantee: with \<open>dryRun = True\<close> the reconciler sends no add and no
  remove request, whatever the actions map holds and whatever the client would answer.
\<close>

theorem C3_dry_run_sends_nothing:
  "requests (snd (reconcileRoots acts kfClient True s)) = requests s"
  by (simp add: reconcileRoots_def fold_reconcileThumbprint_dry_requests)

theorem C3_dry_run_witness:
  "requests (snd (reconcileRoots [(''AAA111'', [addAAA]), (''BBB222'', [removeBBB])] failingClient True noState)) = []"
  using C3_dry_run_sends_nothing
    [of "[(''AAA111'', [addAAA]), (''BBB222'', [removeBBB])]" failingClient noState]
  by (simp add: noState_def)

lemma reconcileAction_live_requests:
  "requests (reconcileAction kfClient False thumbprint a s) =
     requests s @ (if carriesFlag a then [requestOf a] else [])"
  by (simp add: reconcileAction_def carriesFlag_def requestOf_def Let_def split: option.splits)

lemma fold_reconcileAction_live_requests:
  "requests (fold (reconcileAction kfClient False thumbprint) as s) =
     requests s @ map requestOf (filter carriesFlag as)"
  by (induction as arbitrary: s) (simp_all add: reconcileAction_live_requests)

lemma fold_reconcileThumbprint_live_requests:
  "requests (fold (reconcileThumbprint kfClient False) acts s) =
     requests s @ map requestOf (filter carriesFlag (allActions acts))"
  by (induction acts arbitrary: s)
     (simp_all add: reconcileThumbprint_def fold_reconcileAction_live_requests allActions_def)

lemma reconcileAction_failing_count:
  assumes "alwaysFails kfClient"
  shows "length (filter isApplyError (stdout (reconcileAction kfClient False thumbprint a s))) =
           length (filter isApplyError (stdout s)) + (if carriesFlag a then 1 else 0)"
proof -
  obtain e1 where e1: "AddCertificateToStores kfClient (requests s)
      (AddCertificateToStore (CertID a) (StoreID a) True True) = Some e1"
    using assms unfolding alwaysFails_def by (meson option.exhaust)
  obtain e2 where e2: "RemoveCertificateFromStores kfClient (requests s)
      (RemoveCertificateFromStore (CertID a) (StoreID a) (Thumbprint a) True) = Some e2"
    using assms unfolding alwaysFails_def by (meson option.exhaust)
  show ?thesis
    by (simp add: reconcileAction_def carriesFlag_def Let_def isApplyError_def e1 e2)
qed

lemma fold_reconcileAction_failing_count:
  assumes "alwaysFails kfClient"
  shows "length (filter isApplyError (stdout (fold (reconcileAction kfClient False thumbprint) as s))) =
           length (filter isApplyError (stdout s)) + length (filter carriesFlag as)"
  by (induction as arbitrary: s) (simp_all add: reconcileAction_failing_count [OF assms])

lemma fold_reconcileThumbprint_failing_count:
  assumes "alwaysFails kfClient"
  shows "length (filter isApplyError (stdout (fold (reconcileThumbprint kfClient False) acts s))) =
           length (filter isApplyError (stdout s)) + length (filter carriesFlag (allActions acts))"
  by (induction acts arbitrary: s)
     (simp_all add: reconcileThumbprint_def fold_reconcileAction_failing_count [OF assms]
        allActions_def)

text \<open>
  C10. \<^verbatim>\<open>reconcileRoots\<close> returns \<^verbatim>\<open>nil\<close> for every actions map, client and
  \<open>dryRun\<close> setting. A failed request does not stop the run: without dry-run one
  request is sent for every action that carries a flag, in order, whatever the client
  answers; and when every request fails, one error line is printed per request while
  the returned error is still \<^verbatim>\<open>nil\<close>.
\<close>

theorem C10_reconcileRoots_returns_nil:
  "fst (reconcileRoots acts kfClient dryRun s) = None
   \<and> requests (snd (reconcileRoots acts kfClient False s)) =
       requests s @ map requestOf (filter carriesFlag (allActions acts))
   \<and> (alwaysFails kfClient \<longrightarrow>
        length (filter isApplyError (stdout (snd (reconcileRoots acts kfClient False s)))) =
          length (filter isApplyError (stdout s)) + length (filter carriesFlag (allActions acts)))"
proof (intro conjI impI)
  show "fst (reconcileRoots acts kfClient dryRun s) = None"
    by (simp add: reconcileRoots_def)
  show "requests (snd (reconcileRoots acts kfClient False s)) =
          requests s @ map requestOf (filter carriesFlag (allActions acts))"
    by (simp add: reconcileRoots_def fold_reconcileThumbprint_live_requests allActions_def)
  assume f: "alwaysFails kfClient"
  show "length (filter isApplyError (stdout (snd (reconcileRoots acts kfClient False s)))) =
          length (filter isApplyError (stdout s)) + length (filter carriesFlag (allActions acts))"
    by (simp add: reconcileRoots_def fold_reconcileThumbprint_failing_count [OF f] allActions_def)
qed

theorem C10_returns_nil_witness:
  "alwaysFails failingClient
   \<and> fst (reconcileRoots [(''AAA111'', [addAAA]), (''BBB222'', [removeBBB])] failingClient False noState) = None
   \<and> requests (snd (reconcileRoots [(''AAA111'', [addAAA]), (''BBB222'', [removeBBB])] failingClient False noState))
       = [AddCertificateToStore 7 ''store1'' True True,
          RemoveCertificateFromStore 8 ''store1'' ''BBB222'' True]
   \<and> length (filter isApplyError
        (stdout (snd (reconcileRoots [(''AAA111'', [addAAA]), (''BBB222'', [removeBBB])] failingClient False noState)))) = 2"
proof -
  have f: "alwaysFails failingClient"
    by (simp add: alwaysFails_def failingClient_def)
  from C10_reconcileRoots_returns_nil
    [of "[(''AAA111'', [addAAA]), (''BBB222'', [removeBBB])]" failingClient False noState] f
  show ?thesis
    by (simp add: allActions_def carriesFlag_def requestOf_def addAAA_def removeBBB_def noState_def)
qed

subsection \<open>Properties of the diff engine\<close>

lemma data_csvWrite [simp]: "data (csvWrite sys report row s) = data s"
  by (simp add: csvWrite_def split: option.splits)

lemma actions_csvWrite [simp]: "actions (csvWrite sys report row s) = actions s"
  by (simp add: csvWrite_def split: option.splits)

lemma data_addPassStore:
  "data (addPassStore sys cert cl store s) =
     data s @ [[cert, Itoa (ctx_Id cl), ctx_IssuedDN cl, ctx_IssuerDN cl,
                ID store, Type store, Machine store, Path store,
                if Thumbprints store cert \<noteq> None then ''false'' else ''true'', ''false'',
                if Thumbprints store cert \<noteq> None then ''true'' else ''false'',
                GetCurrentTime sys (length (data s))]]"
  by (simp add: addPassStore_def Let_def)

lemma data_removePassStore:
  "data (removePassStore sys cert cl store s) =
     data s @ [[cert, Itoa (ctx_Id cl), ID store, Type store, Machine store, Path store,
                ''false'', if Thumbprints store cert \<noteq> None then ''true'' else ''false'',
                if Thumbprints store cert \<noteq> None then ''true'' else ''false'']]"
  by (simp add: removePassStore_def Let_def)

lemma length_data_addPassStores:
  "length (data (fold (addPassStore sys cert cl) sts s)) = length (data s) + length sts"
  by (induction sts arbitrary: s) (simp_all add: data_addPassStore)

lemma length_data_removePassStores:
  "length (data (fold (removePassStore sys cert cl) sts s)) = length (data s) + length sts"
  by (induction sts arbitrary: s) (simp_all add: data_removePassStore)

lemma length_data_addPassCert:
  "length (data (addPassCert sys kfClient stores cert s)) =
     length (data s) + (if resolves kfClient cert then length stores else 0)"
  by (simp add: addPassCert_def resolves_def length_data_addPassStores split: sum.splits)

lemma length_data_removePassCert:
  "length (data (removePassCert sys kfClient stores cert s)) =
     length (data s) + (if resolves kfClient cert then length stores else 0)"
  by (simp add: removePassCert_def resolves_def length_data_removePassStores split: sum.splits)

lemma length_data_addPass:
  "length (data (fold (addPassCert sys kfClient stores) certs s)) =
     length (data s) + length stores * length (filter (resolves kfClient) certs)"
  by (induction certs arbitrary: s) (simp_all add: length_data_addPassCert)

lemma length_data_removePass:
  "length (data (fold (removePassCert sys kfClient stores) certs s)) =
     length (data s) + length stores * length (filter (resolves kfClient) certs)"
  by (induction certs arbitrary: s) (simp_all add: length_data_removePassCert)

text \<open>The state after the two passes, before the file is closed.\<close>

lemma generateAuditReport_Inr:
  assumes "generateAuditReport sys addCerts removeCerts stores kfClient = Inr s"
  shows "\<exists>out. s = (fold (removePassCert sys kfClient stores) (map snd removeCerts)
            (fold (addPassCert sys kfClient stores) (map snd addCerts)
               \<lparr>data = [AuditHeader], csvFile = [AuditHeader], actions = [], audit_stdout = []\<rparr>))
            \<lparr>audit_stdout := out\<rparr>"
  using assms
  by (auto simp add: generateAuditReport_def Let_def split: option.splits)

lemma length_auditRows:
  assumes "generateAuditReport sys addCerts removeCerts stores kfClient = Inr s"
  shows "length (auditRows s) =
           length stores * (length (resolved kfClient addCerts) + length (resolved kfClient removeCerts))"
proof -
  from generateAuditReport_Inr [OF assms] obtain out where
    "s = (fold (removePassCert sys kfClient stores) (map snd removeCerts)
            (fold (addPassCert sys kfClient stores) (map snd addCerts)
               \<lparr>data = [AuditHeader], csvFile = [AuditHeader], actions = [], audit_stdout = []\<rparr>))
            \<lparr>audit_stdout := out\<rparr>" ..
  then show ?thesis
    by (simp add: auditRows_def length_data_removePass length_data_addPass resolved_def
        distrib_left)
qed

lemma resolved_unresolved:
  "length (resolved kfClient certs) + length (unresolved kfClient certs) = length certs"
  unfolding resolved_def unresolved_def
  using sum_length_filter_compl [of "resolves kfClient" "map snd certs"] by simp

lemma fold_invariant:
  assumes "I s" and "\<And>x s. x \<in> set xs \<Longrightarrow> I s \<Longrightarrow> I (f x s)"
  shows "I (fold f xs s)"
  using assms by (induction xs arbitrary: s) simp_all

text \<open>
  An invariant of the audit state that holds at the start, is kept by the two loop
  bodies and does not depend on what was printed, holds for the state returned.
\<close>

lemma generateAuditReport_invariant:
  assumes run: "generateAuditReport sys addCerts removeCerts stores kfClient = Inr s"
    and init: "I \<lparr>data = [AuditHeader], csvFile = [AuditHeader], actions = [], audit_stdout = []\<rparr>"
    and add: "\<And>cert cl store s. cert \<in> snd ` set addCerts \<Longrightarrow>
                GetCertificateContext kfClient cert = Inr cl \<Longrightarrow> store \<in> snd ` set stores \<Longrightarrow>
                I s \<Longrightarrow> I (addPassStore sys cert cl store s)"
    and rem: "\<And>cert cl store s. cert \<in> snd ` set removeCerts \<Longrightarrow>
                GetCertificateContext kfClient cert = Inr cl \<Longrightarrow> store \<in> snd ` set stores \<Longrightarrow>
                I s \<Longrightarrow> I (removePassStore sys cert cl store s)"
    and out: "\<And>s out. I s \<Longrightarrow> I (s\<lparr>audit_stdout := out\<rparr>)"
  shows "I s"
proof -
  let ?s0 = "\<lparr>data = [AuditHeader], csvFile = [AuditHeader], actions = [], audit_stdout = []\<rparr>"
  let ?s1 = "fold (addPassCert sys kfClient stores) (map snd addCerts) ?s0"
  let ?s2 = "fold (removePassCert sys kfClient stores) (map snd removeCerts) ?s1"
  have a: "I (addPassCert sys kfClient stores cert t)"
    if "cert \<in> set (map snd addCerts)" and "I t" for cert t
  proof (cases "GetCertificateContext kfClient cert")
    case (Inl err)
    then show ?thesis using that out by (simp add: addPassCert_def)
  next
    case (Inr cl)
    have "I (fold (addPassStore sys cert cl) (map snd stores) t)"
      by (rule fold_invariant [where I = I, OF \<open>I t\<close>]) (use that Inr add in auto)
    then show ?thesis using Inr by (simp add: addPassCert_def)
  qed
  have r: "I (removePassCert sys kfClient stores cert t)"
    if "cert \<in> set (map snd removeCerts)" and "I t" for cert t
  proof (cases "GetCertificateContext kfClient cert")
    case (Inl err)
    then show ?thesis using that by (simp add: removePassCert_def)
  next
    case (Inr cl)
    have "I (fold (removePassStore sys cert cl) (map snd stores) t)"
      by (rule fold_invariant [where I = I, OF \<open>I t\<close>]) (use that Inr rem in auto)
    then show ?thesis using Inr by (simp add: removePassCert_def)
  qed
  have "I ?s1" by (rule fold_invariant [where I = I, OF init]) (rule a)
  then have "I ?s2" by (rule fold_invariant [where I = I]) (rule r)
  moreover from generateAuditReport_Inr [OF run] obtain out' where "s = ?s2\<lparr>audit_stdout := out'\<rparr>" ..
  ultimately show ?thesis using out by simp
qed

lemma actionsOf_Nil [simp]: "actionsOf [] t = []"
  by (simp add: actionsOf_def)

lemma actionsOf_appendAction:
  "actionsOf (appendAction cert a m) t = actionsOf m t @ (if t = cert then [a] else [])"
  by (simp add: appendAction_def actionsOf_def update_conv')

lemma length_allActions_appendAction:
  "length (allActions (appendAction k a m)) = Suc (length (allActions m))"
proof (induction m)
  case Nil
  then show ?case by (simp add: allActions_def appendAction_def actionsOf_def)
next
  case (Cons e m)
  obtain k' v' where e: "e = (k', v')" by (cases e)
  show ?case
  proof (cases "k' = k")
    case True
    then show ?thesis by (simp add: e allActions_def appendAction_def actionsOf_def)
  next
    case False
    then show ?thesis using Cons.IH
      by (simp add: e allActions_def appendAction_def actionsOf_def)
  qed
qed

lemma appendAction_changes: "appendAction k a m \<noteq> m"
proof
  assume "appendAction k a m = m"
  then have "length (allActions (appendAction k a m)) = length (allActions m)" by simp
  then show False by (simp add: length_allActions_appendAction)
qed

lemma actions_addPassStore:
  "actions (addPassStore sys cert cl store s) =
     (if Thumbprints store cert \<noteq> None then actions s
      else appendAction cert
             \<lparr>StoreID = ID store, StoreType = Type store, StorePath = Path store,
              Thumbprint = cert, CertID = ctx_Id cl, AddCert = True, RemoveCert = False\<rparr>
             (actions s))"
  by (simp add: addPassStore_def Let_def)

lemma actions_removePassStore:
  "actions (removePassStore sys cert cl store s) =
     (if Thumbprints store cert \<noteq> None
      then appendAction cert
             \<lparr>StoreID = ID store, StoreType = Type store, StorePath = Path store,
              Thumbprint = cert, CertID = ctx_Id cl, AddCert = False, RemoveCert = True\<rparr>
             (actions s)
      else actions s)"
  by (simp add: removePassStore_def Let_def)

lemma no_row_with_both_flags:
  assumes "generateAuditReport sys addCerts removeCerts stores kfClient = Inr s"
  shows "list_all (\<lambda>row. \<not> bothFlags row) (data s)"
  by (rule generateAuditReport_invariant [OF assms])
     (simp_all add: data_addPassStore data_removePassStore bothFlags_def column_def AuditHeader_def)

lemma data_starts_with_header:
  assumes "generateAuditReport sys addCerts removeCerts stores kfClient = Inr s"
  shows "data s = AuditHeader # auditRows s"
proof -
  have "\<exists>rows. data s = AuditHeader # rows"
    by (rule generateAuditReport_invariant [OF assms])
       (auto simp add: data_addPassStore data_removePassStore)
  then show ?thesis by (auto simp add: auditRows_def)
qed

lemma actions_count_flagged_rows:
  assumes "generateAuditReport sys addCerts removeCerts stores kfClient = Inr s"
  shows "\<forall>t. length (actionsOf (actions s) t) =
           length (filter (\<lambda>row. column ''Thumbprint'' row = Some t \<and> flagged row) (data s))"
  by (rule generateAuditReport_invariant [OF assms])
     (simp_all add: data_addPassStore data_removePassStore actions_addPassStore
        actions_removePassStore actionsOf_appendAction flagged_def column_def AuditHeader_def
        )

lemma unresolved_leaves_no_trace:
  assumes "generateAuditReport sys addCerts removeCerts stores kfClient = Inr s"
  shows "data s \<noteq> []
       \<and> (\<forall>row\<in>set (tl (data s)). \<exists>cert. resolves kfClient cert \<and> column ''Thumbprint'' row = Some cert)
       \<and> (\<forall>t. \<not> resolves kfClient t \<longrightarrow> actionsOf (actions s) t = [])"
  by (rule generateAuditReport_invariant [OF assms])
     (auto simp add: data_addPassStore data_removePassStore actions_addPassStore
        actions_removePassStore actionsOf_appendAction column_def AuditHeader_def resolves_def)

lemma addPassRows_append:
  "addPassRows sys k (ps @ qs) = addPassRows sys k ps @ addPassRows sys (k + length ps) qs"
  by (induction ps arbitrary: k) simp_all

lemma length_addPassRows: "length (addPassRows sys k ps) = length ps"
  by (induction ps arbitrary: k) simp_all

lemma data_addPassStores:
  "data (fold (addPassStore sys cert cl) sts s) =
     data s @ addPassRows sys (length (data s)) (map (\<lambda>store. (cert, cl, store)) sts)"
  by (induction sts arbitrary: s) (simp_all add: data_addPassStore addPassRow_def)

lemma data_removePassStores:
  "data (fold (removePassStore sys cert cl) sts s) =
     data s @ map removePassRow (map (\<lambda>store. (cert, cl, store)) sts)"
  by (induction sts arbitrary: s) (simp_all add: data_removePassStore removePassRow_def)

lemma data_addPassCert:
  "data (addPassCert sys kfClient stores cert s) =
     data s @ addPassRows sys (length (data s)) (pairsOf kfClient stores cert)"
  by (simp add: addPassCert_def pairsOf_def data_addPassStores split: sum.splits)

lemma data_removePassCert:
  "data (removePassCert sys kfClient stores cert s) =
     data s @ map removePassRow (pairsOf kfClient stores cert)"
  by (simp add: removePassCert_def pairsOf_def data_removePassStores split: sum.splits)

lemma data_addPass:
  "data (fold (addPassCert sys kfClient stores) certs s) =
     data s @ addPassRows sys (length (data s)) (concat (map (pairsOf kfClient stores) certs))"
  by (induction certs arbitrary: s)
     (simp_all add: data_addPassCert addPassRows_append length_addPassRows)

lemma data_removePass:
  "data (fold (removePassCert sys kfClient stores) certs s) =
     data s @ map removePassRow (concat (map (pairsOf kfClient stores) certs))"
  by (induction certs arbitrary: s) (simp_all add: data_removePassCert)

lemma auditRows_pairs:
  assumes "generateAuditReport sys addCerts removeCerts stores kfClient = Inr s"
  shows "auditRows s =
           addPassRows sys 1 (considered kfClient addCerts stores)
           @ map removePassRow (considered kfClient removeCerts stores)"
proof -
  from generateAuditReport_Inr [OF assms] obtain out where
    "s = (fold (removePassCert sys kfClient stores) (map snd removeCerts)
            (fold (addPassCert sys kfClient stores) (map snd addCerts)
               \<lparr>data = [AuditHeader], csvFile = [AuditHeader], actions = [], audit_stdout = []\<rparr>))
            \<lparr>audit_stdout := out\<rparr>" ..
  then show ?thesis
    by (simp add: auditRows_def data_removePass data_addPass considered_def)
qed

lemma length_pairsOf:
  "length (pairsOf kfClient stores cert) = (if resolves kfClient cert then length stores else 0)"
  by (simp add: pairsOf_def resolves_def split: sum.splits)

lemma length_considered:
  "length (considered kfClient certs stores) = length stores * length (resolved kfClient certs)"
  unfolding considered_def resolved_def
  by (induction certs) (simp_all add: length_pairsOf)

text \<open>
  C7. Completeness: the audit rows are, in order, the row of each pair of a resolved
  thumbprint of the add list and a store, followed by the row of each pair of a
  resolved thumbprint of the remove list and a store: one row per pair, holding the
  thumbprint and the store of its pair. So the number of audit rows is
  \<open>|S| * (|A| + |R|)\<close> minus \<open>|S|\<close> rows for each thumbprint whose lookup failed;
  such a thumbprint has no audit row and no action.
\<close>

theorem C7_one_row_per_pair:
  assumes "generateAuditReport sys addCerts removeCerts stores kfClient = Inr s"
  shows "auditRows s =
             addPassRows sys 1 (considered kfClient addCerts stores)
             @ map removePassRow (considered kfClient removeCerts stores)
       \<and> length (considered kfClient addCerts stores) = length stores * length (resolved kfClient addCerts)
       \<and> length (considered kfClient removeCerts stores) = length stores * length (resolved kfClient removeCerts)
       \<and> length (auditRows s) + length stores *
             (length (unresolved kfClient addCerts) + length (unresolved kfClient removeCerts))
           = length stores * (length addCerts + length removeCerts)
       \<and> length (auditRows s)
           = length stores * (length addCerts + length removeCerts)
             - length stores * (length (unresolved kfClient addCerts) + length (unresolved kfClient removeCerts))
       \<and> (\<forall>cert. \<not> resolves kfClient cert \<longrightarrow>
             actionsOf (actions s) cert = []
             \<and> (\<forall>row\<in>set (auditRows s). column ''Thumbprint'' row \<noteq> Some cert))"
proof -
  have n: "length (auditRows s) =
      length stores * (length (resolved kfClient addCerts) + length (resolved kfClient removeCerts))"
    by (rule length_auditRows [OF assms])
  have a: "length addCerts = length (resolved kfClient addCerts) + length (unresolved kfClient addCerts)"
    by (simp add: resolved_unresolved)
  have r: "length removeCerts = length (resolved kfClient removeCerts) + length (unresolved kfClient removeCerts)"
    by (simp add: resolved_unresolved)
  have sum: "length (auditRows s) + length stores *
             (length (unresolved kfClient addCerts) + length (unresolved kfClient removeCerts))
           = length stores * (length addCerts + length removeCerts)"
    unfolding n by (subst a, subst r) (simp add: distrib_left)
  have trace: "\<not> resolves kfClient cert \<Longrightarrow>
             actionsOf (actions s) cert = []
             \<and> (\<forall>row\<in>set (auditRows s). column ''Thumbprint'' row \<noteq> Some cert)" for cert
    using unresolved_leaves_no_trace [OF assms] by (auto simp add: auditRows_def)
  have rows: "auditRows s =
             addPassRows sys 1 (considered kfClient addCerts stores)
             @ map removePassRow (considered kfClient removeCerts stores)"
    by (rule auditRows_pairs [OF assms])
  from rows sum trace show ?thesis by (auto simp add: length_considered)
qed

lemmas run_simps = generateAuditReport_def addPassCert_def removePassCert_def addPassStore_def
  removePassStore_def csvWrite_def appendAction_def actionsOf_def Itoa_def natDigits.simps
  digitChars_def demoSys_def demoClient_def store1_def store2_def Let_def

lemma demo_run:
  "generateAuditReport demoSys [(''AAA111'', ''AAA111''), (''CCC333'', ''CCC333'')] [(''BBB222'', ''BBB222'')]
      [(''store1'', store1), (''store2'', store2)] demoClient = Inr demoRun"
  by (simp add: run_simps demoRun_def)

lemma actions_carry_one_flag:
  assumes "generateAuditReport sys addCerts removeCerts stores kfClient = Inr s"
  shows "\<forall>t. \<forall>a\<in>set (actionsOf (actions s) t). carriesFlag a \<and> \<not> (AddCert a \<and> RemoveCert a)"
  by (rule generateAuditReport_invariant [OF assms])
     (auto simp add: actions_addPassStore actions_removePassStore actionsOf_appendAction
        carriesFlag_def)

lemma pairStep_addPassStore: "pairStep (addPassStore sys cert cl store) cert t"
  by (simp add: pairStep_def Let_def data_addPassStore actions_addPassStore actionsOf_appendAction
      flagged_def bothFlags_def column_def AuditHeader_def)

lemma pairStep_removePassStore: "pairStep (removePassStore sys cert cl store) cert t"
  by (simp add: pairStep_def Let_def data_removePassStore actions_removePassStore
      actionsOf_appendAction flagged_def bothFlags_def column_def AuditHeader_def)

text \<open>
  C6. In every run no audit row carries \<open>AddCert = true\<close> together with
  \<open>RemoveCert = true\<close>; for every thumbprint the map holds as many actions as there
  are audit rows of that thumbprint carrying a flag, and every action carries exactly
  one flag. For each (certificate, store) pair, in the add pass and in the remove pass,
  the loop body appends one row and appends an action exactly when that row carries a
  flag (\<open>pairStep\<close>). There the flags of a row are read in the columns the header
  names. Read at the places where each pass writes them (\<open>writtenFlags\<close>), the two
  flags are never both \<open>true\<close> either, and the actions map changes exactly when one
  of them is \<open>true\<close>.
\<close>

theorem C6_flags_and_actions:
  "(generateAuditReport sys addCerts removeCerts stores kfClient = Inr s \<longrightarrow>
      (\<forall>row\<in>set (auditRows s). \<not> bothFlags row)
    \<and> (\<forall>t. length (actionsOf (actions s) t) =
            length (filter (\<lambda>row. column ''Thumbprint'' row = Some t \<and> flagged row) (auditRows s)))
    \<and> (\<forall>t. \<forall>a\<in>set (actionsOf (actions s) t). carriesFlag a \<and> \<not> (AddCert a \<and> RemoveCert a)))
   \<and> pairStep (addPassStore sys cert cl store) cert t
   \<and> pairStep (removePassStore sys cert cl store) cert t
   \<and> writtenFlags addPassFlags (''true'', ''false'') (addPassStore sys cert cl store) t
   \<and> writtenFlags removePassFlags (''false'', ''true'') (removePassStore sys cert cl store) t"
proof (intro conjI impI)
  assume run: "generateAuditReport sys addCerts removeCerts stores kfClient = Inr s"
  have d: "data s = AuditHeader # auditRows s"
    by (rule data_starts_with_header [OF run])
  have "list_all (\<lambda>row. \<not> bothFlags row) (data s)"
    by (rule no_row_with_both_flags [OF run])
  then show "\<forall>row\<in>set (auditRows s). \<not> bothFlags row"
    by (subst (asm) d) (simp add: list_all_iff)
  have h: "\<not> flagged AuditHeader"
    by (simp add: flagged_def column_def AuditHeader_def)
  have "\<forall>t. length (actionsOf (actions s) t) =
           length (filter (\<lambda>row. column ''Thumbprint'' row = Some t \<and> flagged row) (data s))"
    by (rule actions_count_flagged_rows [OF run])
  then show "\<forall>t. length (actionsOf (actions s) t) =
            length (filter (\<lambda>row. column ''Thumbprint'' row = Some t \<and> flagged row) (auditRows s))"
    by (subst (asm) d) (simp add: h)
  show "\<forall>t. \<forall>a\<in>set (actionsOf (actions s) t). carriesFlag a \<and> \<not> (AddCert a \<and> RemoveCert a)"
    by (rule actions_carry_one_flag [OF run])
next
  show "pairStep (addPassStore sys cert cl store) cert t"
    by (rule pairStep_addPassStore)
  show "pairStep (removePassStore sys cert cl store) cert t"
    by (rule pairStep_removePassStore)
  show "writtenFlags addPassFlags (''true'', ''false'') (addPassStore sys cert cl store) t"
    by (simp add: writtenFlags_def addPassFlags_def Let_def data_addPassStore actions_addPassStore
        appendAction_changes)
  show "writtenFlags removePassFlags (''false'', ''true'') (removePassStore sys cert cl store) t"
    by (simp add: writtenFlags_def removePassFlags_def Let_def data_removePassStore
        actions_removePassStore appendAction_changes)
qed

theorem C6_flags_witness:
  "generateAuditReport demoSys [(''AAA111'', ''AAA111''), (''CCC333'', ''CCC333'')] [(''BBB222'', ''BBB222'')]
      [(''store1'', store1), (''store2'', store2)] demoClient = Inr demoRun
   \<and> list_all (\<lambda>row. \<not> bothFlags row) (auditRows demoRun)
   \<and> length (actionsOf (actions demoRun) ''BBB222'') =
       length (filter (\<lambda>row. column ''Thumbprint'' row = Some ''BBB222'' \<and> flagged row) (auditRows demoRun))
   \<and> length (actionsOf (actions demoRun) ''BBB222'') = 1
   \<and> list_all (\<lambda>a. carriesFlag a \<and> \<not> (AddCert a \<and> RemoveCert a)) (actionsOf (actions demoRun) ''AAA111'')
   \<and> actionsOf (actions demoRun) ''AAA111'' \<noteq> []
   \<and> pairStep (addPassStore demoSys ''AAA111'' \<lparr>ctx_Id = 7, ctx_IssuedDN = ''CN=Root A'', ctx_IssuerDN = ''CN=Root A''\<rparr> store1) ''AAA111'' demoRun
   \<and> writtenFlags removePassFlags (''false'', ''true'')
        (removePassStore demoSys ''AAA111'' \<lparr>ctx_Id = 7, ctx_IssuedDN = ''CN=Root A'', ctx_IssuerDN = ''CN=Root A''\<rparr> store1) demoRun"
proof -
  have run: "generateAuditReport demoSys [(''AAA111'', ''AAA111''), (''CCC333'', ''CCC333'')]
      [(''BBB222'', ''BBB222'')] [(''store1'', store1), (''store2'', store2)] demoClient = Inr demoRun"
    by (simp add: run_simps demoRun_def)
  have n: "length (actionsOf (actions demoRun) ''BBB222'') = 1"
          "actionsOf (actions demoRun) ''AAA111'' \<noteq> []"
    by (simp_all add: demoRun_def actionsOf_def)
  from C6_flags_and_actions [of demoSys "[(''AAA111'', ''AAA111''), (''CCC333'', ''CCC333'')]"
      "[(''BBB222'', ''BBB222'')]" "[(''store1'', store1), (''store2'', store2)]" demoClient demoRun
      "''AAA111''" "\<lparr>ctx_Id = 7, ctx_IssuedDN = ''CN=Root A'', ctx_IssuerDN = ''CN=Root A''\<rparr>" store1 demoRun]
    run n
  show ?thesis unfolding list_all_iff by blast
qed

theorem C7_rows_witness:
  "generateAuditReport demoSys [(''AAA111'', ''AAA111''), (''CCC333'', ''CCC333'')] [(''BBB222'', ''BBB222'')]
      [(''store1'', store1), (''store2'', store2)] demoClient = Inr demoRun
   \<and> auditRows demoRun =
       addPassRows demoSys 1
         (considered demoClient [(''AAA111'', ''AAA111''), (''CCC333'', ''CCC333'')]
            [(''store1'', store1), (''store2'', store2)])
       @ map removePassRow
           (considered demoClient [(''BBB222'', ''BBB222'')] [(''store1'', store1), (''store2'', store2)])
   \<and> considered demoClient [(''AAA111'', ''AAA111''), (''CCC333'', ''CCC333'')]
         [(''store1'', store1), (''store2'', store2)] =
       [(''AAA111'', \<lparr>ctx_Id = 7, ctx_IssuedDN = ''CN=Root A'', ctx_IssuerDN = ''CN=Root A''\<rparr>, store1),
        (''AAA111'', \<lparr>ctx_Id = 7, ctx_IssuedDN = ''CN=Root A'', ctx_IssuerDN = ''CN=Root A''\<rparr>, store2)]
   \<and> \<not> resolves demoClient ''CCC333''
   \<and> length (auditRows demoRun) = 2 * (2 + 1) - 2 * (1 + 0)
   \<and> actionsOf (actions demoRun) ''CCC333'' = []
   \<and> list_all (\<lambda>row. column ''Thumbprint'' row \<noteq> Some ''CCC333'') (auditRows demoRun)"
proof -
  have run: "generateAuditReport demoSys [(''AAA111'', ''AAA111''), (''CCC333'', ''CCC333'')]
      [(''BBB222'', ''BBB222'')] [(''store1'', store1), (''store2'', store2)] demoClient = Inr demoRun"
    by (simp add: run_simps demoRun_def)
  have u: "\<not> resolves demoClient ''CCC333''"
    by (simp add: resolves_def demoClient_def)
  have c: "length (unresolved demoClient [(''AAA111'', ''AAA111''), (''CCC333'', ''CCC333'')]) = 1"
          "length (unresolved demoClient [(''BBB222'', ''BBB222'')]) = 0"
    by (simp_all add: unresolved_def resolves_def demoClient_def)
  have p: "considered demoClient [(''AAA111'', ''AAA111''), (''CCC333'', ''CCC333'')]
         [(''store1'', store1), (''store2'', store2)] =
       [(''AAA111'', \<lparr>ctx_Id = 7, ctx_IssuedDN = ''CN=Root A'', ctx_IssuerDN = ''CN=Root A''\<rparr>, store1),
        (''AAA111'', \<lparr>ctx_Id = 7, ctx_IssuedDN = ''CN=Root A'', ctx_IssuerDN = ''CN=Root A''\<rparr>, store2)]"
    by (simp add: considered_def pairsOf_def demoClient_def)
  from C7_one_row_per_pair [OF run] have
    "auditRows demoRun =
       addPassRows demoSys 1
         (considered demoClient [(''AAA111'', ''AAA111''), (''CCC333'', ''CCC333'')]
            [(''store1'', store1), (''store2'', store2)])
       @ map removePassRow
           (considered demoClient [(''BBB222'', ''BBB222'')] [(''store1'', store1), (''store2'', store2)])"
    "length (auditRows demoRun) + length [(''store1'', store1), (''store2'', store2)] *
       (length (unresolved demoClient [(''AAA111'', ''AAA111''), (''CCC333'', ''CCC333'')])
        + length (unresolved demoClient [(''BBB222'', ''BBB222'')]))
     = length [(''store1'', store1), (''store2'', store2)] *
       (length [(''AAA111'', ''AAA111''), (''CCC333'', ''CCC333'')] + length [(''BBB222'', ''BBB222'')])"
    "\<forall>cert. \<not> resolves demoClient cert \<longrightarrow>
       actionsOf (actions demoRun) cert = []
       \<and> (\<forall>row\<in>set (auditRows demoRun). column ''Thumbprint'' row \<noteq> Some cert)"
    by blast+
  with u c run p show ?thesis unfolding list_all_iff by simp
qed

lemma add_row_has_header_columns:
  "length (last (data (addPassStore sys cert cl store s))) = length AuditHeader"
  by (simp add: data_addPassStore AuditHeader_def)

lemma remove_row_has_nine_columns:
  "length (last (data (removePassStore sys cert cl store s))) = 9"
  by (simp add: data_removePassStore)

text \<open>
  C2. The claim reads: every audit row, of the add pass and of the remove pass alike,
  has the twelve columns of the header in order. The rows of the add pass do
  (\<open>add_row_has_header_columns\<close>); every row of the remove pass has nine columns
  (\<open>remove_row_has_nine_columns\<close>): subject, issuer and audit date are missing, so
  under the header the store ID stands in the column \<open>SubjectName\<close>, the machine in
  the column \<open>StoreID\<close>, and the columns \<open>RemoveCert\<close> and \<open>AuditDate\<close> are empty.
  The run below removes one deployed certificate from one store.
\<close>

theorem C2_remove_rows_lack_columns:
  "generateAuditReport demoSys [] [(''BBB222'', ''BBB222'')] [(''store1'', store1)] demoClient =
     Inr \<lparr>data = [AuditHeader,
                   [''BBB222'', ''8'', ''store1'', ''PEM'', ''host1'', ''/etc/ssl'', ''false'', ''true'', ''true'']],
          csvFile = [AuditHeader,
                   [''BBB222'', ''8'', ''store1'', ''PEM'', ''host1'', ''/etc/ssl'', ''false'', ''true'', ''true'']],
          actions = [(''BBB222'', [\<lparr>StoreID = ''store1'', StoreType = ''PEM'', StorePath = ''/etc/ssl'',
                Thumbprint = ''BBB222'', CertID = 8, AddCert = False, RemoveCert = True\<rparr>])],
          audit_stdout = [AuditReportWritten]\<rparr>
   \<and> length AuditHeader = 12
   \<and> length [''BBB222'', ''8'', ''store1'', ''PEM'', ''host1'', ''/etc/ssl'', ''false'', ''true'', ''true''] = 9
   \<and> column ''SubjectName'' [''BBB222'', ''8'', ''store1'', ''PEM'', ''host1'', ''/etc/ssl'', ''false'', ''true'', ''true'']
       = Some ''store1''
   \<and> column ''StoreID'' [''BBB222'', ''8'', ''store1'', ''PEM'', ''host1'', ''/etc/ssl'', ''false'', ''true'', ''true'']
       = Some ''host1''
   \<and> column ''RemoveCert'' [''BBB222'', ''8'', ''store1'', ''PEM'', ''host1'', ''/etc/ssl'', ''false'', ''true'', ''true'']
       = None
   \<and> column ''AuditDate'' [''BBB222'', ''8'', ''store1'', ''PEM'', ''host1'', ''/etc/ssl'', ''false'', ''true'', ''true'']
       = None"
  by (simp add: run_simps column_def AuditHeader_def)

subsection \<open>Properties of the audit ledger's read path\<close>

lemma digitVal_digitChars: "d < 10 \<Longrightarrow> digitVal (digitChars ! d) = Some d"
proof -
  assume "d < 10"
  then have "d = 0 \<or> d = 1 \<or> d = 2 \<or> d = 3 \<or> d = 4 \<or> d = 5 \<or> d = 6 \<or> d = 7 \<or> d = 8 \<or> d = 9"
    by arith
  then show ?thesis
    by (auto simp add: digitVal_def digitChars_def)
qed

lemma digitChars_nth_mem: "d < 10 \<Longrightarrow> digitChars ! d \<in> set digitChars"
  by (rule nth_mem) (simp add: digitChars_def)

lemma natDigits_not_Nil: "natDigits n \<noteq> []"
  by (subst natDigits.simps) simp

lemma set_natDigits: "set (natDigits n) \<subseteq> set digitChars"
proof (induction n rule: natDigits.induct)
  case (1 n)
  show ?case
  proof (cases "n < 10")
    case True
    then show ?thesis by (subst natDigits.simps) (simp add: digitChars_nth_mem)
  next
    case False
    then have "set (natDigits (n div 10)) \<subseteq> set digitChars" using 1 by simp
    moreover have "digitChars ! (n mod 10) \<in> set digitChars" by (simp add: digitChars_nth_mem)
    ultimately show ?thesis using False by (subst natDigits.simps) simp
  qed
qed

lemma parseDigits_append:
  "parseDigits (xs @ ys) acc =
     (case parseDigits xs acc of None \<Rightarrow> None | Some a \<Rightarrow> parseDigits ys a)"
  by (induction xs arbitrary: acc) (simp_all split: option.splits)

lemma parseDigits_natDigits: "parseDigits (natDigits n) 0 = Some n"
proof (induction n rule: natDigits.induct)
  case (1 n)
  show ?case
  proof (cases "n < 10")
    case True
    then show ?thesis by (subst natDigits.simps) (simp add: digitVal_digitChars)
  next
    case False
    then have "parseDigits (natDigits (n div 10)) 0 = Some (n div 10)" using 1 by simp
    then show ?thesis using False
      by (subst natDigits.simps) (simp add: parseDigits_append digitVal_digitChars)
  qed
qed

lemma signed_natDigits:
  "inInt64 (if neg then - int n else int n) \<Longrightarrow>
   signed neg (natDigits n) = Some (if neg then - int n else int n)"
  by (simp add: signed_def natDigits_not_Nil parseDigits_natDigits Let_def)

lemma Atoi_natDigits:
  assumes "inInt64 (int n)"
  shows "Atoi (natDigits n) = Some (int n)"
proof -
  obtain c cs where cs: "natDigits n = c # cs"
    using natDigits_not_Nil [of n] by (cases "natDigits n") auto
  then have "c \<in> set digitChars" using set_natDigits [of n] by auto
  then have "c \<noteq> CHR ''-''" "c \<noteq> CHR ''+''" by (auto simp add: digitChars_def)
  then have "Atoi (natDigits n) = signed False (natDigits n)" by (simp add: cs)
  also have "\<dots> = Some (int n)" using signed_natDigits [of False n] assms by simp
  finally show ?thesis .
qed

lemma Atoi_Itoa: "inInt64 i \<Longrightarrow> Atoi (Itoa i) = Some i"
proof (cases "i < 0")
  case True
  assume "inInt64 i"
  then show ?thesis using True signed_natDigits [of True "nat (- i)"]
    by (simp add: Itoa_def)
next
  case False
  assume "inInt64 i"
  then show ?thesis using False Atoi_natDigits [of "nat i"] by (simp add: Itoa_def)
qed

lemma Itoa_has_digit: "\<exists>c\<in>set (Itoa i). c \<in> set digitChars"
proof -
  have "\<exists>c\<in>set (natDigits n). c \<in> set digitChars" for n
    using natDigits_not_Nil [of n] set_natDigits [of n] by (cases "natDigits n") auto
  then show ?thesis by (auto simp add: Itoa_def)
qed

lemma Atoi_true: "Atoi ''true'' = None" "Atoi ''false'' = None"
  by (simp_all add: signed_def digitVal_def digitChars_def)

lemma isHeaderRow_AuditHeader: "isHeaderRow AuditHeader"
  by (simp add: isHeaderRow_def EqualFold_def)

lemma map_of_zip_nth_if:
  "distinct xs \<Longrightarrow> k < length xs \<Longrightarrow>
   map_of (zip xs ys) (xs ! k) = (if k < length ys then Some (ys ! k) else None)"
proof (induction xs arbitrary: ys k)
  case Nil
  then show ?case by simp
next
  case (Cons x xs)
  show ?case
  proof (cases ys)
    case Nil
    then show ?thesis by simp
  next
    case (Cons y ys')
    show ?thesis
    proof (cases k)
      case 0
      then show ?thesis using Cons by simp
    next
      case (Suc k')
      then have "xs ! k' \<noteq> x" using Cons.prems by auto
      then show ?thesis using Suc Cons Cons.IH [of k' ys'] Cons.prems by simp
    qed
  qed
qed

lemma distinct_AuditHeader: "distinct AuditHeader"
  by (simp add: AuditHeader_def)

lemma length_AuditHeader: "length AuditHeader = 12"
  by (simp add: AuditHeader_def)

lemma AuditHeader_names_not_empty: "[] \<notin> set AuditHeader"
  by (simp add: AuditHeader_def)

lemma column_nth:
  "k < length AuditHeader \<Longrightarrow>
   column (AuditHeader ! k) row = (if k < length row then Some (row ! k) else None)"
  by (simp add: column_def map_of_zip_nth_if distinct_AuditHeader)

lemma fieldMap_eq_header:
  assumes "k < length AuditHeader"
  shows "fieldMap i = AuditHeader ! k \<longleftrightarrow> i = k"
proof (cases "i < length AuditHeader")
  case True
  then show ?thesis using assms distinct_AuditHeader
    by (simp add: fieldMap_def nth_eq_iff_index_eq)
next
  case False
  have "AuditHeader ! k \<in> set AuditHeader" using assms by simp
  then have "AuditHeader ! k \<noteq> []" using AuditHeader_names_not_empty by metis
  then show ?thesis using False assms by (auto simp add: fieldMap_def)
qed

lemma rowFields_lookup:
  assumes "k < length AuditHeader"
  shows "rowFields i row action (AuditHeader ! k) =
     (if i \<le> k \<and> k < i + length row
      then Some (toField (row ! (k - i)))
      else action (AuditHeader ! k))"
proof (induction row arbitrary: i action)
  case Nil
  then show ?case by auto
next
  case (Cons f row)
  show ?case
  proof (cases "i = k")
    case True
    have "fieldMap k = AuditHeader ! k" using assms by (simp add: fieldMap_def)
    then show ?thesis using True
      by (simp add: Cons.IH)
  next
    case False
    then have "fieldMap i \<noteq> AuditHeader ! k"
      by (simp add: fieldMap_eq_header [OF assms])
    then have "AuditHeader ! k \<noteq> fieldMap i" by (rule not_sym)
    then show ?thesis using False
      by (auto simp add: Cons.IH Suc_diff_le)
  qed
qed

lemma rowFields_column:
  assumes "name \<in> set AuditHeader"
  shows "rowFields 0 row Map.empty name =
     map_option toField (column name row)"
proof -
  from assms obtain k where k: "k < length AuditHeader" "name = AuditHeader ! k"
    by (auto simp add: in_set_conv_nth)
  show ?thesis unfolding k(2)
    by (simp add: rowFields_lookup [OF k(1)] column_nth [OF k(1)])
qed

lemma assertString_column:
  assumes "name \<in> set AuditHeader"
  shows "assertString (rowFields 0 row Map.empty name) =
     (if stringColumn name row then column name row else None)"
  by (simp add: rowFields_column [OF assms] stringColumn_def toField_def split: option.splits)

lemma assertInt_column:
  assumes "name \<in> set AuditHeader"
  shows "assertInt (rowFields 0 row Map.empty name) =
     (if intColumn name row then Atoi (the (column name row)) else None)"
  by (auto simp add: rowFields_column [OF assms] intColumn_def toField_def split: option.splits)

lemma header_names:
  "''AddCert'' \<in> set AuditHeader" "''RemoveCert'' \<in> set AuditHeader" "''StoreID'' \<in> set AuditHeader"
  "''StoreType'' \<in> set AuditHeader" "''Path'' \<in> set AuditHeader" "''Thumbprint'' \<in> set AuditHeader"
  "''CertID'' \<in> set AuditHeader"
  by (simp_all add: AuditHeader_def)

text \<open>A row is turned into an action exactly when it fits the Action schema.\<close>

lemma rowAction_mappable:
  "rowAction row =
     (if mappable row
      then Some \<lparr>StoreID = the (column ''StoreID'' row), StoreType = the (column ''StoreType'' row),
                 StorePath = the (column ''Path'' row), Thumbprint = the (column ''Thumbprint'' row),
                 CertID = the (Atoi (the (column ''CertID'' row))),
                 AddCert = parseBoolOrFalse (the (column ''AddCert'' row)),
                 RemoveCert = parseBoolOrFalse (the (column ''RemoveCert'' row))\<rparr>
      else None)"
proof (cases "mappable row")
  case True
  then have s: "stringColumn ''AddCert'' row" "stringColumn ''RemoveCert'' row"
      "stringColumn ''StoreID'' row" "stringColumn ''StoreType'' row" "stringColumn ''Path'' row"
      "stringColumn ''Thumbprint'' row" and i: "intColumn ''CertID'' row"
    by (simp_all add: mappable_def)
  from s have c: "column ''AddCert'' row \<noteq> None" "column ''RemoveCert'' row \<noteq> None"
      "column ''StoreID'' row \<noteq> None" "column ''StoreType'' row \<noteq> None" "column ''Path'' row \<noteq> None"
      "column ''Thumbprint'' row \<noteq> None"
    by (auto simp add: stringColumn_def split: option.splits)
  from i have a: "Atoi (the (column ''CertID'' row)) \<noteq> None"
    by (auto simp add: intColumn_def split: option.splits)
  show ?thesis using True s i c a
    by (auto simp add: rowAction_def Let_def assertString_column header_names assertInt_column)
next
  case False
  then show ?thesis
    by (auto simp add: rowAction_def Let_def assertString_column header_names assertInt_column
        mappable_def Option.bind_eq_None_conv)
qed

lemma loadRows_fails:
  assumes "\<not> isHeaderRow row"
    and "(\<not> validHeader \<and> list_all (\<lambda>r. \<not> isHeaderRow r) pre) \<or> rowAction row = None"
  shows "isl (loadRows (pre @ row # post) validHeader acts)"
  using assms(2)
proof (induction pre arbitrary: validHeader acts)
  case Nil
  then show ?case using assms(1) by auto
next
  case (Cons p pre)
  show ?case
  proof (cases "isHeaderRow p")
    case True
    then have "rowAction row = None" using Cons.prems by auto
    then have "isl (loadRows (pre @ row # post) True acts)" by (intro Cons.IH) simp
    then show ?thesis using True by simp
  next
    case False
    show ?thesis
    proof (cases validHeader)
      case True
      then have r: "rowAction row = None" using Cons.prems by auto
      show ?thesis
      proof (cases "rowAction p")
        case None
        then show ?thesis using False True by simp
      next
        case (Some a)
        have "isl (loadRows (pre @ row # post) validHeader (appendAction (Thumbprint a) a acts))"
          by (intro Cons.IH) (simp add: r)
        then show ?thesis using False True Some by simp
      qed
    next
      case False
      then show ?thesis using \<open>\<not> isHeaderRow p\<close> by simp
    qed
  qed
qed

lemma importCSV_fails:
  assumes "i < length records" and "\<not> isHeaderRow (records ! i)"
    and "list_all (\<lambda>r. \<not> isHeaderRow r) (take i records) \<or> \<not> mappable (records ! i)"
  shows "isl (importCSV records)"
proof (cases "ReadAll records")
  case (Inl cErr)
  then show ?thesis by (simp add: importCSV_def)
next
  case (Inr inFile)
  then have inFile: "inFile = records"
    by (auto simp add: ReadAll_def split: list.splits if_splits)
  have d: "records = take i records @ records ! i # drop (Suc i) records"
    using assms(1) by (rule id_take_nth_drop)
  have "isl (loadRows (take i records @ records ! i # drop (Suc i) records) False [])"
    by (rule loadRows_fails [OF assms(2)]) (use assms(3) in \<open>auto simp add: rowAction_mappable\<close>)
  then have "isl (loadRows records False [])" using d by simp
  then show ?thesis using Inr inFile by (simp add: importCSV_def)
qed

lemma reconcileImport_fails: "isl (importCSV records) \<Longrightarrow> isl (reconcileImport kfClient records dryRun)"
  by (cases "importCSV records") (simp_all add: reconcileImport_def)

text \<open>
  C8, as amended. A data row (a row that does not match the header case-insensitively)
  makes the whole load fail, and nothing is reconciled, when no header row comes before
  it, or when it does not fit the Action schema: \<open>CertID\<close> an integer literal, and
  \<open>Thumbprint\<close>, \<open>StoreID\<close>, \<open>StoreType\<close>, \<open>Path\<close>, \<open>AddCert\<close> and
  \<open>RemoveCert\<close> present and no integer literals. A row that fits the schema is turned
  into an action whatever its \<open>AddCert\<close> and \<open>RemoveCert\<close> columns hold: a flag is
  true when \<^verbatim>\<open>ParseBool\<close> reads true, and false otherwise, also when the column is
  no boolean literal.
\<close>

theorem C8_load_fails_fast:
  "(i < length records \<and> \<not> isHeaderRow (records ! i)
      \<and> (list_all (\<lambda>r. \<not> isHeaderRow r) (take i records) \<or> \<not> mappable (records ! i))
     \<longrightarrow> isl (importCSV records) \<and> isl (reconcileImport kfClient records dryRun))
   \<and> (mappable row \<longrightarrow>
        rowAction row =
          Some \<lparr>StoreID = the (column ''StoreID'' row), StoreType = the (column ''StoreType'' row),
                StorePath = the (column ''Path'' row), Thumbprint = the (column ''Thumbprint'' row),
                CertID = the (Atoi (the (column ''CertID'' row))),
                AddCert = (ParseBool (the (column ''AddCert'' row)) = Some True),
                RemoveCert = (ParseBool (the (column ''RemoveCert'' row)) = Some True)\<rparr>)"
proof (intro conjI impI)
  assume a: "i < length records \<and> \<not> isHeaderRow (records ! i)
      \<and> (list_all (\<lambda>r. \<not> isHeaderRow r) (take i records) \<or> \<not> mappable (records ! i))"
  then show "isl (importCSV records)" by (intro importCSV_fails) auto
  then show "isl (reconcileImport kfClient records dryRun)" by (rule reconcileImport_fails)
next
  assume "mappable row"
  then show "rowAction row =
          Some \<lparr>StoreID = the (column ''StoreID'' row), StoreType = the (column ''StoreType'' row),
                StorePath = the (column ''Path'' row), Thumbprint = the (column ''Thumbprint'' row),
                CertID = the (Atoi (the (column ''CertID'' row))),
                AddCert = (ParseBool (the (column ''AddCert'' row)) = Some True),
                RemoveCert = (ParseBool (the (column ''RemoveCert'' row)) = Some True)\<rparr>"
    by (auto simp add: rowAction_mappable parseBoolOrFalse_def split: option.splits)
qed

lemmas load_simps = importCSV_def ReadAll_def AuditHeader_def isHeaderRow_def EqualFold_def toLower_def
    rowAction_def fieldMap_def toField_def signed_def digitVal_def digitChars_def appendAction_def
    actionsOf_def parseBoolOrFalse_def ParseBool_def inInt64_def Let_def

text \<open>
  C8 as stated fails: a data row whose \<open>AddCert\<close> and \<open>RemoveCert\<close> columns are no
  boolean literals does not fail the load; it is loaded as an action with both flags
  false.
\<close>

theorem C8_unparsed_flag_counterexample:
  "importCSV [AuditHeader,
      [''AAA111'', ''7'', ''CN=Root A'', ''CN=Root A'', ''store1'', ''PEM'', ''host1'', ''/etc/ssl'',
       ''yes'', ''no'', ''false'', ''2022-11-01T00:00:00Z'']] =
     Inr [(''AAA111'',
       [\<lparr>StoreID = ''store1'', StoreType = ''PEM'',
           StorePath = ''/etc/ssl'', Thumbprint = ''AAA111'', CertID = 7,
           AddCert = False, RemoveCert = False\<rparr>])]
   \<and> ParseBool ''yes'' = None \<and> ParseBool ''no'' = None"
  by (simp add: load_simps)

theorem C8_load_witness:
  "\<not> isHeaderRow rowYes
   \<and> isl (importCSV [rowYes, AuditHeader])
   \<and> isl (reconcileImport failingClient [rowYes, AuditHeader] False)
   \<and> mappable rowYes
   \<and> rowAction rowYes =
       Some \<lparr>StoreID = ''store1'', StoreType = ''PEM'', StorePath = ''/etc/ssl'',
             Thumbprint = ''AAA111'', CertID = 7, AddCert = False, RemoveCert = False\<rparr>"
proof -
  have h: "\<not> isHeaderRow rowYes"
    by (simp add: isHeaderRow_def EqualFold_def AuditHeader_def rowYes_def toLower_def)
  have m: "mappable rowYes"
    by (simp add: mappable_def stringColumn_def intColumn_def column_def AuditHeader_def rowYes_def
        signed_def digitVal_def digitChars_def inInt64_def)
  have c: "the (column ''StoreID'' rowYes) = ''store1''" "the (column ''StoreType'' rowYes) = ''PEM''"
    "the (column ''Path'' rowYes) = ''/etc/ssl''" "the (column ''Thumbprint'' rowYes) = ''AAA111''"
    "the (Atoi (the (column ''CertID'' rowYes))) = 7"
    "ParseBool (the (column ''AddCert'' rowYes)) = None"
    "ParseBool (the (column ''RemoveCert'' rowYes)) = None"
    by (simp_all add: column_def AuditHeader_def rowYes_def signed_def digitVal_def digitChars_def
        inInt64_def ParseBool_def)
  from C8_load_fails_fast [of 0 "[rowYes, AuditHeader]" failingClient False rowYes] h m
  show ?thesis by (simp add: c)
qed

subsection \<open>Round trip of the audit ledger\<close>

lemma toLower_digit_iff: "toLower c \<in> set digitChars \<longleftrightarrow> c \<in> set digitChars"
proof (cases "map_of (zip ''ABCDEFGHIJKLMNOPQRSTUVWXYZ'' ''abcdefghijklmnopqrstuvwxyz'') c")
  case None
  then show ?thesis by (simp add: toLower_def)
next
  case (Some l)
  then have "(c, l) \<in> set (zip ''ABCDEFGHIJKLMNOPQRSTUVWXYZ'' ''abcdefghijklmnopqrstuvwxyz'')"
    by (rule map_of_SomeD)
  then have "c \<in> set ''ABCDEFGHIJKLMNOPQRSTUVWXYZ''" "l \<in> set ''abcdefghijklmnopqrstuvwxyz''"
    by (auto dest: set_zip_leftD set_zip_rightD)
  then have "c \<notin> set digitChars" "l \<notin> set digitChars"
    by (auto simp add: digitChars_def)
  then show ?thesis using Some by (simp add: toLower_def)
qed

lemma header_has_no_digit:
  "\<not> list_ex (\<lambda>c. c \<in> set digitChars) (Join AuditHeader '','')"
  by (simp add: digitChars_def AuditHeader_def)

lemma EqualFold_digit:
  assumes "EqualFold s t" and "list_ex (\<lambda>c. c \<in> set digitChars) s"
  shows "list_ex (\<lambda>c. c \<in> set digitChars) t"
proof -
  from assms(2) obtain c where c: "c \<in> set s" "c \<in> set digitChars"
    by (auto simp add: list_ex_iff)
  have "set (map toLower s) = set (map toLower t)"
    using assms(1) by (simp add: EqualFold_def)
  then have "toLower ` set s = toLower ` set t" by simp
  moreover have "toLower c \<in> toLower ` set s" using c(1) by (rule imageI)
  ultimately obtain d where d: "d \<in> set t" "toLower c = toLower d" by auto
  have "toLower c \<in> set digitChars" using c(2) by (simp add: toLower_digit_iff)
  then have "d \<in> set digitChars" using d(2) by (simp add: toLower_digit_iff)
  then show ?thesis using d(1) by (auto simp add: list_ex_iff)
qed

lemma set_Join_second: "set b \<subseteq> set (Join (a # b # rest) sep)"
  by (cases rest) auto

lemma row_with_number_is_no_header:
  "\<not> isHeaderRow (a # Itoa n # rest)"
proof
  assume h: "isHeaderRow (a # Itoa n # rest)"
  obtain c where c: "c \<in> set (Itoa n)" "c \<in> set digitChars"
    using Itoa_has_digit by blast
  then have "c \<in> set (Join (a # Itoa n # rest) '','')"
    using set_Join_second [of "Itoa n" a rest "'',''"] by auto
  then have "list_ex (\<lambda>c. c \<in> set digitChars) (Join (a # Itoa n # rest) '','')"
    using c(2) by (auto simp add: list_ex_iff)
  then have "list_ex (\<lambda>c. c \<in> set digitChars) (Join AuditHeader '','')"
    using h unfolding isHeaderRow_def by (rule EqualFold_digit [rotated])
  then show False using header_has_no_digit by simp
qed

lemma addRow_mappable:
  assumes "Atoi cert = None" "Atoi sid = None" "Atoi stype = None" "Atoi spath = None"
    and "inInt64 cid" and "Atoi flag = None" and "Atoi rflag = None"
  shows "rowAction [cert, Itoa cid, subj, iss, sid, stype, machine, spath, flag, rflag, dep, now] =
     Some \<lparr>StoreID = sid, StoreType = stype, StorePath = spath, Thumbprint = cert, CertID = cid,
           AddCert = parseBoolOrFalse flag, RemoveCert = parseBoolOrFalse rflag\<rparr>"
  using assms
  by (simp add: rowAction_mappable mappable_def stringColumn_def intColumn_def column_def
      AuditHeader_def Atoi_Itoa)

lemma loadRows_all_rows:
  assumes "list_all (\<lambda>row. \<not> isHeaderRow row \<and> rowAction row \<noteq> None) rows"
  shows "\<exists>loaded. loadRows rows True acts = Inr loaded
           \<and> (\<forall>t. actionsOf loaded t =
                  actionsOf acts t @ filter (\<lambda>a. Thumbprint a = t) (map (\<lambda>row. the (rowAction row)) rows))
           \<and> length (allActions loaded) = length (allActions acts) + length rows"
  using assms
proof (induction rows arbitrary: acts)
  case Nil
  then show ?case by simp
next
  case (Cons row rows)
  then obtain a where a: "rowAction row = Some a" and h: "\<not> isHeaderRow row" by auto
  from Cons.prems have "list_all (\<lambda>row. \<not> isHeaderRow row \<and> rowAction row \<noteq> None) rows" by simp
  from Cons.IH [OF this, of "appendAction (Thumbprint a) a acts"]
  obtain loaded where l: "loadRows rows True (appendAction (Thumbprint a) a acts) = Inr loaded"
    "\<forall>t. actionsOf loaded t =
        actionsOf (appendAction (Thumbprint a) a acts) t
        @ filter (\<lambda>a. Thumbprint a = t) (map (\<lambda>row. the (rowAction row)) rows)"
    "length (allActions loaded) =
       length (allActions (appendAction (Thumbprint a) a acts)) + length rows"
    by blast
  have "loadRows (row # rows) True acts = Inr loaded" using a h l(1) by simp
  moreover have "\<forall>t. actionsOf loaded t =
      actionsOf acts t @ filter (\<lambda>a. Thumbprint a = t) (map (\<lambda>row. the (rowAction row)) (row # rows))"
    using l(2) a by (auto simp add: actionsOf_appendAction)
  moreover have "length (allActions loaded) = length (allActions acts) + length (row # rows)"
    using l(3) by (simp add: length_allActions_appendAction)
  ultimately show ?case by blast
qed

lemma csvFile_addPassStore:
  assumes "\<forall>k. writeErr sys k = None"
  shows "csvFile (addPassStore sys cert cl store s) =
           csvFile s @ [last (data (addPassStore sys cert cl store s))]"
  using assms by (simp add: addPassStore_def csvWrite_def Let_def)

lemma parseBoolOrFalse_literals: "parseBoolOrFalse ''true''" "\<not> parseBoolOrFalse ''false''"
  by (simp_all add: parseBoolOrFalse_def ParseBool_def)

lemma readsBack_addPassStore:
  assumes w: "\<forall>k. writeErr sys k = None"
    and c: "Atoi cert = None"
    and st: "Atoi (ID store) = None" "Atoi (Type store) = None" "Atoi (Path store) = None"
    and i: "inInt64 (ctx_Id cl)"
    and r: "readsBack s"
  shows "readsBack (addPassStore sys cert cl store s)"
proof -
  let ?s' = "addPassStore sys cert cl store s"
  let ?row = "[cert, Itoa (ctx_Id cl), ctx_IssuedDN cl, ctx_IssuerDN cl,
                ID store, Type store, Machine store, Path store,
                if Thumbprints store cert \<noteq> None then ''false'' else ''true'', ''false'',
                if Thumbprints store cert \<noteq> None then ''true'' else ''false'',
                GetCurrentTime sys (length (data s))]"
  have d: "data ?s' = data s @ [?row]" by (rule data_addPassStore)
  have f: "csvFile ?s' = csvFile s @ [?row]"
    using csvFile_addPassStore [OF w, of cert cl store s] d by simp
  have ne: "data s \<noteq> []" using r by (simp add: readsBack_def)
  then have t: "tl (data ?s') = tl (data s) @ [?row]" using d by simp
  have nh: "\<not> isHeaderRow ?row" by (rule row_with_number_is_no_header)
  have ra: "rowAction ?row =
     Some \<lparr>StoreID = ID store, StoreType = Type store, StorePath = Path store, Thumbprint = cert,
           CertID = ctx_Id cl, AddCert = (Thumbprints store cert = None), RemoveCert = False\<rparr>"
  proof (cases "Thumbprints store cert = None")
    case True
    then show ?thesis
      using addRow_mappable [OF c st i Atoi_true(1) Atoi_true(2)]
      by (simp add: parseBoolOrFalse_literals)
  next
    case False
    then show ?thesis
      using addRow_mappable [OF c st i Atoi_true(2) Atoi_true(2)]
      by (simp add: parseBoolOrFalse_literals)
  qed
  show ?thesis
    unfolding readsBack_def t
    using r ne nh ra d f
    by (auto simp add: readsBack_def actions_addPassStore actionsOf_appendAction carriesFlag_def)
qed

lemma readsBack_run:
  assumes run: "generateAuditReport sys addCerts removeCerts stores kfClient = Inr s"
    and rem: "resolved kfClient removeCerts = []"
    and w: "\<forall>k. writeErr sys k = None"
    and c: "\<forall>cert\<in>snd ` set addCerts. Atoi cert = None"
    and st: "\<forall>store\<in>snd ` set stores.
               Atoi (ID store) = None \<and> Atoi (Type store) = None \<and> Atoi (Path store) = None"
    and i: "\<forall>cert cl. GetCertificateContext kfClient cert = Inr cl \<longrightarrow> inInt64 (ctx_Id cl)"
  shows "readsBack s"
proof (rule generateAuditReport_invariant [OF run])
  show "readsBack \<lparr>data = [AuditHeader], csvFile = [AuditHeader], actions = [], audit_stdout = []\<rparr>"
    by (simp add: readsBack_def)
next
  fix cert cl store t
  assume "cert \<in> snd ` set addCerts" "GetCertificateContext kfClient cert = Inr cl"
    "store \<in> snd ` set stores" "readsBack t"
  then show "readsBack (addPassStore sys cert cl store t)"
    using w c st i by (intro readsBack_addPassStore) auto
next
  fix cert cl store t
  assume "cert \<in> snd ` set removeCerts" "GetCertificateContext kfClient cert = Inr cl"
  then have "cert \<in> set (resolved kfClient removeCerts)"
    by (auto simp add: resolved_def resolves_def)
  then show "readsBack (removePassStore sys cert cl store t)" using rem by simp
next
  fix t out
  assume "readsBack t"
  then show "readsBack (t\<lparr>audit_stdout := out\<rparr>)" by (simp add: readsBack_def)
qed

text \<open>
  C1, as amended. Take a run of the diff engine in which no thumbprint of the remove
  list resolves (so the remove pass writes no row), every row is written, and no
  thumbprint, store ID, store type or store path is an integer literal. Loading the
  file it wrote succeeds and yields one action per audit row, the rows without a flag
  included; and for every thumbprint the loaded actions that carry a flag are exactly
  the actions of the diff engine, in the same order and with the same fields.
\<close>

theorem C1_round_trip_without_remove_rows:
  assumes run: "generateAuditReport sys addCerts removeCerts stores kfClient = Inr s"
    and rem: "resolved kfClient removeCerts = []"
    and w: "\<forall>k. writeErr sys k = None"
    and c: "\<forall>cert\<in>snd ` set addCerts. Atoi cert = None"
    and st: "\<forall>store\<in>snd ` set stores.
               Atoi (ID store) = None \<and> Atoi (Type store) = None \<and> Atoi (Path store) = None"
    and i: "\<forall>cert cl. GetCertificateContext kfClient cert = Inr cl \<longrightarrow> inInt64 (ctx_Id cl)"
  shows "\<exists>loaded. importCSV (csvFile s) = Inr loaded
           \<and> (\<forall>t. filter carriesFlag (actionsOf loaded t) = actionsOf (actions s) t)
           \<and> length (allActions loaded) = length (auditRows s)"
proof -
  have r: "readsBack s" by (rule readsBack_run [OF run rem w c st i])
  let ?rows = "tl (data s)"
  from r have d: "csvFile s = AuditHeader # ?rows" by (cases "data s") (simp_all add: readsBack_def)
  from r have good: "list_all (\<lambda>row. length row = 12 \<and> \<not> isHeaderRow row \<and> rowAction row \<noteq> None) ?rows"
    by (simp add: readsBack_def)
  then have len: "list_all (\<lambda>x. length x = length AuditHeader) ?rows"
    by (simp add: list_all_iff length_AuditHeader)
  from good have "list_all (\<lambda>row. \<not> isHeaderRow row \<and> rowAction row \<noteq> None) ?rows"
    by (simp add: list_all_iff)
  from loadRows_all_rows [OF this, of "[]"] obtain loaded where
    l: "loadRows ?rows True [] = Inr loaded"
       "\<forall>t. actionsOf loaded t = filter (\<lambda>a. Thumbprint a = t) (map (\<lambda>row. the (rowAction row)) ?rows)"
       "length (allActions loaded) = length ?rows"
    by (auto simp add: allActions_def)
  have "importCSV (csvFile s) = Inr loaded"
    using l(1) len by (simp add: d importCSV_def ReadAll_def isHeaderRow_AuditHeader)
  moreover have "\<forall>t. filter carriesFlag (actionsOf loaded t) = actionsOf (actions s) t"
    using l(2) r by (simp add: readsBack_def)
  ultimately show ?thesis using l(3) by (auto simp add: auditRows_def)
qed

lemmas example_simps = demoAddRun_def rowAdd_def rowNoop_def rowRemove_def rowDigits_def
  addAAA_def noopAAA_def removeBBB_def addDigits_def

text \<open>
  C1 as stated fails in three ways. A row without a flag is loaded as an action, so the
  loaded map has an entry where the diff engine's map has none. A row of the remove
  pass has nine columns, so reading the file fails on the number of fields. And a
  thumbprint made of digits is stored as an integer, so the type assertion panics.
\<close>

theorem C1_round_trip_counterexample:
  "generateAuditReport demoSys [(''AAA111'', ''AAA111'')] [] [(''store2'', store2)] demoClient
     = Inr \<lparr>data = [AuditHeader, rowNoop], csvFile = [AuditHeader, rowNoop],
            actions = [], audit_stdout = [AuditReportWritten]\<rparr>
   \<and> importCSV [AuditHeader, rowNoop] = Inr [(''AAA111'', [noopAAA])]
   \<and> generateAuditReport demoSys [] [(''BBB222'', ''BBB222'')] [(''store1'', store1)] demoClient
     = Inr \<lparr>data = [AuditHeader, rowRemove], csvFile = [AuditHeader, rowRemove],
            actions = [(''BBB222'', [removeBBB])], audit_stdout = [AuditReportWritten]\<rparr>
   \<and> importCSV [AuditHeader, rowRemove] = Inl (Fatal ''Error reading CSV file'')
   \<and> generateAuditReport demoSys [(''424242'', ''424242'')] [] [(''store1'', store1)] demoClient
     = Inr \<lparr>data = [AuditHeader, rowDigits], csvFile = [AuditHeader, rowDigits],
            actions = [(''424242'', [addDigits])], audit_stdout = [AuditReportWritten]\<rparr>
   \<and> importCSV [AuditHeader, rowDigits] = Inl (Panic ''interface conversion'')"
proof (intro conjI)
  show "generateAuditReport demoSys [(''AAA111'', ''AAA111'')] [] [(''store2'', store2)] demoClient
     = Inr \<lparr>data = [AuditHeader, rowNoop], csvFile = [AuditHeader, rowNoop],
            actions = [], audit_stdout = [AuditReportWritten]\<rparr>"
    by (simp add: run_simps example_simps)
  show "importCSV [AuditHeader, rowNoop] = Inr [(''AAA111'', [noopAAA])]"
    by (simp add: load_simps example_simps)
  show "generateAuditReport demoSys [] [(''BBB222'', ''BBB222'')] [(''store1'', store1)] demoClient
     = Inr \<lparr>data = [AuditHeader, rowRemove], csvFile = [AuditHeader, rowRemove],
            actions = [(''BBB222'', [removeBBB])], audit_stdout = [AuditReportWritten]\<rparr>"
    by (simp add: run_simps example_simps)
  show "importCSV [AuditHeader, rowRemove] = Inl (Fatal ''Error reading CSV file'')"
    by (simp add: load_simps example_simps)
  show "generateAuditReport demoSys [(''424242'', ''424242'')] [] [(''store1'', store1)] demoClient
     = Inr \<lparr>data = [AuditHeader, rowDigits], csvFile = [AuditHeader, rowDigits],
            actions = [(''424242'', [addDigits])], audit_stdout = [AuditReportWritten]\<rparr>"
    by (simp add: run_simps example_simps)
  show "importCSV [AuditHeader, rowDigits] = Inl (Panic ''interface conversion'')"
    by (simp add: load_simps example_simps)
qed

theorem C1_round_trip_witness:
  "generateAuditReport demoSys [(''AAA111'', ''AAA111'')] [(''CCC333'', ''CCC333'')]
      [(''store1'', store1), (''store2'', store2)] demoClient = Inr demoAddRun
   \<and> resolved demoClient [(''CCC333'', ''CCC333'')] = []
   \<and> importCSV (csvFile demoAddRun) = Inr [(''AAA111'', [addAAA, noopAAA])]
   \<and> filter carriesFlag (actionsOf [(''AAA111'', [addAAA, noopAAA])] ''AAA111'') =
       actionsOf (actions demoAddRun) ''AAA111''
   \<and> actionsOf (actions demoAddRun) ''AAA111'' = [addAAA]
   \<and> length (allActions [(''AAA111'', [addAAA, noopAAA])]) = length (auditRows demoAddRun)"
proof -
  have run: "generateAuditReport demoSys [(''AAA111'', ''AAA111'')] [(''CCC333'', ''CCC333'')]
      [(''store1'', store1), (''store2'', store2)] demoClient = Inr demoAddRun"
    by (simp add: run_simps example_simps)
  have rem: "resolved demoClient [(''CCC333'', ''CCC333'')] = []"
    by (simp add: resolved_def resolves_def demoClient_def)
  have w: "\<forall>k. writeErr demoSys k = None"
    by (simp add: demoSys_def)
  have c: "\<forall>cert\<in>snd ` set [(''AAA111'', ''AAA111'')]. Atoi cert = None"
    by (simp add: signed_def digitVal_def digitChars_def)
  have st: "\<forall>store\<in>snd ` set [(''store1'', store1), (''store2'', store2)].
               Atoi (ID store) = None \<and> Atoi (Type store) = None \<and> Atoi (Path store) = None"
    by (simp add: store1_def store2_def signed_def digitVal_def digitChars_def)
  have i: "\<forall>cert cl. GetCertificateContext demoClient cert = Inr cl \<longrightarrow> inInt64 (ctx_Id cl)"
    by (auto simp add: demoClient_def inInt64_def split: if_splits)
  have ev: "importCSV (csvFile demoAddRun) = Inr [(''AAA111'', [addAAA, noopAAA])]"
    by (simp add: load_simps example_simps)
  have a: "actionsOf (actions demoAddRun) ''AAA111'' = [addAAA]"
    by (simp add: actionsOf_def demoAddRun_def)
  from C1_round_trip_without_remove_rows [OF run rem w c st i] obtain loaded where
    l: "importCSV (csvFile demoAddRun) = Inr loaded"
       "\<forall>t. filter carriesFlag (actionsOf loaded t) = actionsOf (actions demoAddRun) t"
       "length (allActions loaded) = length (auditRows demoAddRun)"
    by blast
  from l(1) ev have "loaded = [(''AAA111'', [addAAA, noopAAA])]" by simp
  with l run rem a show ?thesis by simp
qed

subsection \<open>Lookup failures in the commands\<close>

lemma isl_generateAuditReport:
  "isl (generateAuditReport sys addCerts removeCerts stores kfClient) \<longleftrightarrow>
     createErr sys \<noteq> None \<or> writeErr sys 1 \<noteq> None"
  by (auto simp add: generateAuditReport_def Let_def split: option.splits)

lemma auditStoreEntry_not_found:
  assumes "hdrValid s" and "\<not> EqualFold (Join (e0 # fs) '','') (Join StoreHeader '','')"
    and "\<not> storeFound kfClient e0"
  shows "auditStoreEntry kfClient minCerts maxLeaves maxKeys (e0 # fs) s = Inr s"
  using assms by (simp add: auditStoreEntry_def storeFound_def split: sum.splits)

lemma reconcileStoreEntry_not_found:
  assumes "lookedUp ie" and "\<not> storeFound kfClient (hd (snd ie))"
  shows "reconcileStoreEntry kfClient minCerts maxLeaves maxKeys ie s =
           Inr (s\<lparr>lookupFailures := lookupFailures s @ [hd (snd ie)]\<rparr>)"
  using assms
  by (cases "snd ie") (auto simp add: reconcileStoreEntry_def lookedUp_def storeFound_def split: sum.splits)

lemma lookupFailures_putStore:
  "putStore entry inventory s = Inr s' \<Longrightarrow> lookupFailures s' = lookupFailures s"
  by (auto simp add: putStore_def split: if_splits)

lemma lookupFailures_reconcileStoreEntry:
  assumes "reconcileStoreEntry kfClient minCerts maxLeaves maxKeys ie s = Inr s'"
  shows "lookupFailures s' = lookupFailures s @ failedStores kfClient [ie]"
proof (cases "snd ie")
  case Nil
  then show ?thesis using assms by (simp add: reconcileStoreEntry_def)
next
  case (Cons e0 fs)
  show ?thesis
  proof (cases "lookedUp ie \<and> \<not> storeFound kfClient e0")
    case True
    then show ?thesis
      using assms reconcileStoreEntry_not_found [of ie kfClient minCerts maxLeaves maxKeys s] Cons
      by (auto simp add: failedStores_def)
  next
    case False
    then have f: "failedStores kfClient [ie] = []" using Cons by (simp add: failedStores_def)
    show ?thesis
    proof (cases "lookedUp ie")
      case True
      then have "storeFound kfClient e0" using False by simp
      then show ?thesis using assms Cons True f
        by (auto simp add: reconcileStoreEntry_def lookedUp_def storeFound_def
            lookupFailures_putStore split: sum.splits option.splits if_splits prod.splits)
    next
      case False
      then show ?thesis using assms Cons f
        by (auto simp add: reconcileStoreEntry_def lookedUp_def)
    qed
  qed
qed

lemma failedStores_Cons:
  "failedStores kfClient (ie # ies) = failedStores kfClient [ie] @ failedStores kfClient ies"
  by (simp add: failedStores_def)

lemma lookupFailures_loop:
  assumes "runEntries (reconcileStoreEntry kfClient minCerts maxLeaves maxKeys) ies s = Inr s'"
  shows "lookupFailures s' = lookupFailures s @ failedStores kfClient ies"
  using assms
proof (induction ies arbitrary: s)
  case Nil
  then show ?case by (simp add: failedStores_def)
next
  case (Cons ie ies)
  then obtain s1 where s1: "reconcileStoreEntry kfClient minCerts maxLeaves maxKeys ie s = Inr s1"
      and r: "runEntries (reconcileStoreEntry kfClient minCerts maxLeaves maxKeys) ies s1 = Inr s'"
    by (auto split: sum.splits)
  have "lookupFailures s' = lookupFailures s1 @ failedStores kfClient ies"
    by (rule Cons.IH [OF r])
  also have "lookupFailures s1 = lookupFailures s @ failedStores kfClient [ie]"
    by (rule lookupFailures_reconcileStoreEntry [OF s1])
  finally show ?case by (simp add: failedStores_Cons [of kfClient ie ies])
qed

lemma rotReconcile_stores_not_found:
  assumes "failedStores kfClient (enumerate 0 storeEntries) \<noteq> []"
  shows "isl (rotReconcile sys kfClient storeEntries addEntries removeEntries minCerts maxLeaves maxKeys dryRun)"
    and "runEntries (reconcileStoreEntry kfClient minCerts maxLeaves maxKeys)
             (enumerate 0 storeEntries) noStores = Inr s \<Longrightarrow>
         rotReconcile sys kfClient storeEntries addEntries removeEntries minCerts maxLeaves maxKeys dryRun =
           Inl (Fatal (''Error the following stores were not found: ''
                       @ Join (failedStores kfClient (enumerate 0 storeEntries)) '',''))"
proof -
  show "rotReconcile sys kfClient storeEntries addEntries removeEntries minCerts maxLeaves maxKeys dryRun =
           Inl (Fatal (''Error the following stores were not found: ''
                       @ Join (failedStores kfClient (enumerate 0 storeEntries)) '',''))"
    if r: "runEntries (reconcileStoreEntry kfClient minCerts maxLeaves maxKeys)
             (enumerate 0 storeEntries) noStores = Inr s" for s
  proof -
    have "lookupFailures s = failedStores kfClient (enumerate 0 storeEntries)"
      using lookupFailures_loop [OF r] by (simp add: noStores_def)
    then show ?thesis using r assms by (simp add: rotReconcile_def)
  qed
  then show "isl (rotReconcile sys kfClient storeEntries addEntries removeEntries minCerts maxLeaves maxKeys dryRun)"
    by (cases "runEntries (reconcileStoreEntry kfClient minCerts maxLeaves maxKeys)
             (enumerate 0 storeEntries) noStores") (simp_all add: rotReconcile_def)
qed

text \<open>
  C9, as amended. A lookup failure does not stop the loop it occurs in: a thumbprint
  that does not resolve is skipped by both passes of the diff engine (the add pass
  prints the error at once), and the diff engine fails on the audit file only; a store
  that is not found is skipped by the store loop of the \<^verbatim>\<open>audit\<close> command and by the
  store loop of the \<^verbatim>\<open>reconcile\<close> command. The \<^verbatim>\<open>reconcile\<close> command accumulates
  the IDs of the stores not found, in order; when there is one, the command ends after
  the store loop with a fatal error that lists them, before any audit row is written
  and before any request is sent.
\<close>

theorem C9_lookup_failures:
  "(GetCertificateContext kfClient cert = Inl err \<longrightarrow>
      addPassCert sys kfClient stores cert a =
        a\<lparr>audit_stdout := audit_stdout a @ [ErrorLookingUpCertificate cert err]\<rparr>
      \<and> removePassCert sys kfClient stores cert a = a)
   \<and> (isl (generateAuditReport sys addCerts removeCerts stores kfClient) \<longleftrightarrow>
        createErr sys \<noteq> None \<or> writeErr sys 1 \<noteq> None)
   \<and> (hdrValid s \<and> \<not> EqualFold (Join (e0 # fs) '','') (Join StoreHeader '','')
        \<and> \<not> storeFound kfClient e0 \<longrightarrow>
        auditStoreEntry kfClient minCerts maxLeaves maxKeys (e0 # fs) s = Inr s)
   \<and> (lookedUp ie \<and> \<not> storeFound kfClient (hd (snd ie)) \<longrightarrow>
        reconcileStoreEntry kfClient minCerts maxLeaves maxKeys ie s =
          Inr (s\<lparr>lookupFailures := lookupFailures s @ [hd (snd ie)]\<rparr>))
   \<and> (runEntries (reconcileStoreEntry kfClient minCerts maxLeaves maxKeys) ies s = Inr s' \<longrightarrow>
        lookupFailures s' = lookupFailures s @ failedStores kfClient ies)
   \<and> (failedStores kfClient (enumerate 0 storeEntries) \<noteq> [] \<longrightarrow>
        isl (rotReconcile sys kfClient storeEntries addEntries removeEntries minCerts maxLeaves maxKeys dryRun)
        \<and> (runEntries (reconcileStoreEntry kfClient minCerts maxLeaves maxKeys)
              (enumerate 0 storeEntries) noStores = Inr s'' \<longrightarrow>
            rotReconcile sys kfClient storeEntries addEntries removeEntries minCerts maxLeaves maxKeys dryRun =
              Inl (Fatal (''Error the following stores were not found: ''
                          @ Join (failedStores kfClient (enumerate 0 storeEntries)) '',''))))"
proof (intro conjI impI)
  assume "GetCertificateContext kfClient cert = Inl err"
  then show "addPassCert sys kfClient stores cert a =
        a\<lparr>audit_stdout := audit_stdout a @ [ErrorLookingUpCertificate cert err]\<rparr>"
    and "removePassCert sys kfClient stores cert a = a"
    by (simp_all add: addPassCert_def removePassCert_def)
next
  show "isl (generateAuditReport sys addCerts removeCerts stores kfClient) \<longleftrightarrow>
        createErr sys \<noteq> None \<or> writeErr sys 1 \<noteq> None"
    by (rule isl_generateAuditReport)
next
  assume "hdrValid s \<and> \<not> EqualFold (Join (e0 # fs) '','') (Join StoreHeader '','')
        \<and> \<not> storeFound kfClient e0"
  then show "auditStoreEntry kfClient minCerts maxLeaves maxKeys (e0 # fs) s = Inr s"
    by (intro auditStoreEntry_not_found) simp_all
next
  assume "lookedUp ie \<and> \<not> storeFound kfClient (hd (snd ie))"
  then show "reconcileStoreEntry kfClient minCerts maxLeaves maxKeys ie s =
          Inr (s\<lparr>lookupFailures := lookupFailures s @ [hd (snd ie)]\<rparr>)"
    by (intro reconcileStoreEntry_not_found) simp_all
next
  assume "runEntries (reconcileStoreEntry kfClient minCerts maxLeaves maxKeys) ies s = Inr s'"
  then show "lookupFailures s' = lookupFailures s @ failedStores kfClient ies"
    by (rule lookupFailures_loop)
next
  assume f: "failedStores kfClient (enumerate 0 storeEntries) \<noteq> []"
  show "isl (rotReconcile sys kfClient storeEntries addEntries removeEntries minCerts maxLeaves maxKeys dryRun)"
    by (rule rotReconcile_stores_not_found(1) [OF f])
  assume "runEntries (reconcileStoreEntry kfClient minCerts maxLeaves maxKeys)
              (enumerate 0 storeEntries) noStores = Inr s''"
  then show "rotReconcile sys kfClient storeEntries addEntries removeEntries minCerts maxLeaves maxKeys dryRun =
              Inl (Fatal (''Error the following stores were not found: ''
                          @ Join (failedStores kfClient (enumerate 0 storeEntries)) '',''))"
    by (rule rotReconcile_stores_not_found(2) [OF f])
qed

lemmas command_simps = rotReconcile_def rotAudit_def reconcileStoreEntry_def auditStoreEntry_def
  putStore_def noStores_def demoStoreEntries_def store9Entry_def store1Entry_def StoreHeader_def
  isRootStore_def countInventory_def enumerate_eq_zip

text \<open>
  C9 as stated fails: in the \<^verbatim>\<open>reconcile\<close> command one store that is not found is
  fatal for the run, although the next store of the file is found and qualifies.
\<close>

theorem C9_store_lookup_counterexample:
  "rotReconcile demoSys demoClient demoStoreEntries [[''AAA111'']] [] (-1) (-1) (-1) False =
     Inl (Fatal ''Error the following stores were not found: store9'')"
  by (simp add: command_simps demoClient_def upt_rec)

theorem C9_lookup_failures_witness:
  "GetCertificateContext demoClient ''CCC333'' = Inl ''not found''
   \<and> addPassCert demoSys demoClient [(''store1'', store1)] ''CCC333'' demoAddRun =
       demoAddRun\<lparr>audit_stdout := audit_stdout demoAddRun @ [ErrorLookingUpCertificate ''CCC333'' ''not found'']\<rparr>
   \<and> removePassCert demoSys demoClient [(''store1'', store1)] ''CCC333'' demoAddRun = demoAddRun
   \<and> \<not> isl (generateAuditReport demoSys [(''CCC333'', ''CCC333'')] [] [(''store1'', store1)] demoClient)
   \<and> \<not> storeFound demoClient ''store9''
   \<and> auditStoreEntry demoClient (-1) (-1) (-1) store9Entry (noStores\<lparr>hdrValid := True\<rparr>) =
       Inr (noStores\<lparr>hdrValid := True\<rparr>)
   \<and> lookedUp (1, store9Entry)
   \<and> reconcileStoreEntry demoClient (-1) (-1) (-1) (1, store9Entry) noStores =
       Inr (noStores\<lparr>lookupFailures := [''store9'']\<rparr>)
   \<and> failedStores demoClient (enumerate 0 demoStoreEntries) = [''store9'']
   \<and> isl (rotReconcile demoSys demoClient demoStoreEntries [[''AAA111'']] [] (-1) (-1) (-1) False)"
proof -
  have c: "GetCertificateContext demoClient ''CCC333'' = Inl ''not found''"
    by (simp add: demoClient_def)
  have g: "createErr demoSys = None" "writeErr demoSys 1 = None"
    by (simp_all add: demoSys_def)
  have n: "\<not> storeFound demoClient ''store9''"
    by (simp add: storeFound_def demoClient_def)
  have h: "hdrValid (noStores\<lparr>hdrValid := True\<rparr>)"
    "\<not> EqualFold (Join (''store9'' # tl store9Entry) '','') (Join StoreHeader '','')"
    by (simp_all add: EqualFold_def StoreHeader_def store9Entry_def toLower_def)
  have e: "store9Entry = ''store9'' # tl store9Entry"
    by (simp add: store9Entry_def)
  have l: "lookedUp (1, store9Entry)" "hd (snd (1::nat, store9Entry)) = ''store9''"
    by (simp_all add: lookedUp_def store9Entry_def)
  have f: "failedStores demoClient (enumerate 0 demoStoreEntries) = [''store9'']"
    by (simp add: failedStores_def lookedUp_def storeFound_def demoClient_def demoStoreEntries_def
        store9Entry_def store1Entry_def StoreHeader_def enumerate_eq_zip upt_rec)
  from C9_lookup_failures [where kfClient = demoClient and cert = "''CCC333''" and err = "''not found''"
      and sys = demoSys and stores = "[(''store1'', store1)]" and a = demoAddRun
      and addCerts = "[(''CCC333'', ''CCC333'')]" and removeCerts = "[]"
      and s = "noStores\<lparr>hdrValid := True\<rparr>" and ?e0.0 = "''store9''" and fs = "tl store9Entry"
      and minCerts = "-1" and maxLeaves = "-1" and maxKeys = "-1"
      and storeEntries = demoStoreEntries and addEntries = "[[''AAA111'']]" and removeEntries = "[]"
      and dryRun = False]
  have a: "addPassCert demoSys demoClient [(''store1'', store1)] ''CCC333'' demoAddRun =
       demoAddRun\<lparr>audit_stdout := audit_stdout demoAddRun @ [ErrorLookingUpCertificate ''CCC333'' ''not found'']\<rparr>"
    "removePassCert demoSys demoClient [(''store1'', store1)] ''CCC333'' demoAddRun = demoAddRun"
    "\<not> isl (generateAuditReport demoSys [(''CCC333'', ''CCC333'')] [] [(''store1'', store1)] demoClient)"
    "auditStoreEntry demoClient (-1) (-1) (-1) store9Entry (noStores\<lparr>hdrValid := True\<rparr>) =
       Inr (noStores\<lparr>hdrValid := True\<rparr>)"
    "isl (rotReconcile demoSys demoClient demoStoreEntries [[''AAA111'']] [] (-1) (-1) (-1) False)"
    using c g n h e f by simp_all
  from C9_lookup_failures [where kfClient = demoClient and ie = "(1, store9Entry)" and s = noStores
      and minCerts = "-1" and maxLeaves = "-1" and maxKeys = "-1"]
  have b: "reconcileStoreEntry demoClient (-1) (-1) (-1) (1, store9Entry) noStores =
       Inr (noStores\<lparr>lookupFailures := [''store9'']\<rparr>)"
    using l n by (simp add: noStores_def)
  show ?thesis using a b c n l(1) f by simp
qed

end
